theory Spec2Isabelle
  imports Main "HOL-Library.Sublist" "HOL-Library.AList"
begin

section \<open>JavaScript values the code reads\<close>

text \<open>
  The CMS answers with JSON. A string-valued field of a JSON object is either missing
  (reading it gives \<^verbatim>\<open>undefined\<close>), \<^verbatim>\<open>null\<close>, or a string. Strings are
  lists of ASCII characters; the Unicode spaces that \<^verbatim>\<open>trim\<close> also removes and the
  non-ASCII letters that \<^verbatim>\<open>toLowerCase\<close> changes are not represented.
\<close>

datatype jstr = Undefined | Null | Str string

text \<open>Truthiness of such a value: only a non-empty string is truthy.\<close>

fun truthy :: "jstr \<Rightarrow> bool" where
  "truthy (Str s) = (s \<noteq> [])"
| "truthy Undefined = False"
| "truthy Null = False"

text \<open>\<^verbatim>\<open>x || ''\<close> for a string-valued field.\<close>

fun or_empty :: "jstr \<Rightarrow> string" where
  "or_empty (Str s) = s"
| "or_empty Undefined = []"
| "or_empty Null = []"

text \<open>\<^verbatim>\<open>a || b\<close> on two such fields.\<close>

definition js_or :: "jstr \<Rightarrow> jstr \<Rightarrow> jstr" where
  "js_or a b = (if truthy a then a else b)"

text \<open>The property key that \<^verbatim>\<open>acc[x]\<close> uses: the value converted to a string.\<close>

fun prop_key :: "jstr \<Rightarrow> string" where
  "prop_key (Str s) = s"
| "prop_key Undefined = ''undefined''"
| "prop_key Null = ''null''"

text \<open>
  \<^verbatim>\<open>acc[k] = v\<close> on an object created by \<^verbatim>\<open>{}\<close>. The map holds the object's own
  properties. The key \<^verbatim>\<open>__proto__\<close> is the accessor inherited from
  \<^verbatim>\<open>Object.prototype\<close>: assigning an object to it replaces the prototype and creates
  no own property.
\<close>

definition set_prop :: "(string \<rightharpoonup> 'v) \<Rightarrow> string \<Rightarrow> 'v \<Rightarrow> (string \<rightharpoonup> 'v)" where
  "set_prop acc k v = (if k = ''__proto__'' then acc else acc(k \<mapsto> v))"

text \<open>\<^verbatim>\<open>x ?? 0\<close> on a numeric field that may be missing or null.\<close>

fun or_zero :: "int option \<Rightarrow> int" where
  "or_zero None = 0"
| "or_zero (Some n) = n"

text \<open>\<^verbatim>\<open>x || []\<close> on an array-valued property that may be missing.\<close>

fun or_nil :: "'a list option \<Rightarrow> 'a list" where
  "or_nil None = []"
| "or_nil (Some xs) = xs"

subsection \<open>String operations\<close>

definition is_space :: "char \<Rightarrow> bool" where
  "is_space c = (c \<in> {CHR 0x20, CHR 0x09, CHR 0x0A, CHR 0x0B, CHR 0x0C, CHR 0x0D})"

definition trim :: "string \<Rightarrow> string" where
  "trim s = rev (dropWhile is_space (rev (dropWhile is_space s)))"

definition lower_char :: "char \<Rightarrow> char" where
  "lower_char c =
     (let n = (of_char c :: nat) in if 65 \<le> n \<and> n \<le> 90 then char_of (n + 32) else c)"

definition toLowerCase :: "string \<Rightarrow> string" where
  "toLowerCase s = map lower_char s"

text \<open>\<^verbatim>\<open>s.startsWith(p)\<close> is \<^term>\<open>prefix p s\<close>; an unanchored regular expression that is
  a literal matches when the literal is a contiguous part of the string.\<close>

definition str_includes :: "string \<Rightarrow> string \<Rightarrow> bool" where
  "str_includes s p = sublist p s"

section \<open>Data model\<close>

text \<open>
  Field names carry a prefix for their record (\<open>b_\<close> block, \<open>p_\<close> post, \<open>s_\<close> section,
  \<open>r_\<close> release, \<open>lc_\<close> live card, \<open>v_\<close> video, \<open>d_\<close> live detail, \<open>bio_\<close>, \<open>c_\<close> contact
  link); the rest of the name is the source's property name.
  \<open>b_images\<close> is \<^verbatim>\<open>block.metadata.images\<close> read as the list of its elements'
  \<^verbatim>\<open>url\<close> properties, \<open>None\<close> when it is not an array.
  \<open>p_blocks\<close> is \<open>None\<close> when \<^verbatim>\<open>post.blocks\<close> is not an array.
\<close>

record block =
  b_type :: jstr
  b_content :: jstr
  b_images :: "jstr list option"

record post =
  p_slug :: jstr
  p_title :: jstr
  p_order :: "int option"
  p_blocks :: "block list option"

record cms_section =
  s_id :: "int option"
  s_slug :: jstr

record release =
  r_href :: string
  r_title :: jstr
  r_image :: string
  r_order :: int

record live_card =
  lc_slug :: jstr
  lc_title :: jstr
  lc_image :: string
  lc_order :: int

record video =
  v_type :: string
  v_src :: string
  v_title :: jstr

record live_detail =
  d_title :: jstr
  d_video :: "video option"
  d_primaryImages :: "string list option"
  d_secondaryImages :: "string list option"

record bio_section =
  bio_order :: int
  bio_title :: jstr
  bio_html :: string

record contact_link =
  c_order :: int
  c_label :: jstr
  c_href :: string
  c_is_external :: bool

text \<open>
  The bundle of the six view models. Each property is optional because the orchestrator
  reads every property of a bundle with \<^verbatim>\<open>data.releases || []\<close>. The live detail map
  is the list of the properties of the object.
\<close>

record bootstrap =
  landingSlides :: "string list option"
  releases :: "release list option"
  liveProjects :: "live_card list option"
  liveDetailMap :: "(string \<times> live_detail) list option"
  bioSections :: "bio_section list option"
  contactLinks :: "contact_link list option"

text \<open>What is thrown: \<^verbatim>\<open>new Error(message)\<close>, a \<^verbatim>\<open>TypeError\<close>, a \<^verbatim>\<open>SyntaxError\<close>.\<close>

datatype error = Error string | TypeError | SyntaxError

section \<open>CMS client helpers\<close>

definition firstBlockOfType :: "block list option \<Rightarrow> string \<Rightarrow> block option" where
  "firstBlockOfType blocks ty =
     (case blocks of None \<Rightarrow> None | Some bs \<Rightarrow> find (\<lambda>b. b_type b = Str ty) bs)"

text \<open>\<^verbatim>\<open>firstBlockOfType(blocks, ty)?.content || ''\<close>.\<close>

definition first_content :: "block list option \<Rightarrow> string \<Rightarrow> string" where
  "first_content blocks ty =
     (case firstBlockOfType blocks ty of None \<Rightarrow> [] | Some b \<Rightarrow> or_empty (b_content b))"

definition slideshowUrls :: "block \<Rightarrow> string list" where
  "slideshowUrls b =
     (case b_images b of None \<Rightarrow> [] | Some imgs \<Rightarrow> map or_empty (filter truthy imgs))"

definition isExternalHref :: "string \<Rightarrow> bool" where
  "isExternalHref href =
     (let s = toLowerCase (trim href)
      in prefix ''http://'' s \<or> prefix ''https://'' s \<or> prefix ''mailto:'' s \<or> prefix ''tel:'' s)"

section \<open>View-model builder\<close>

text \<open>
  The transforms of \<^verbatim>\<open>buildDataFromCms\<close>, one function for each \<^verbatim>\<open>const\<close> of its
  body (the name of the constant after \<open>build_\<close>); the functions named \<open>_of\<close> are the
  callbacks given to \<^verbatim>\<open>map\<close>. The build script \<^verbatim>\<open>scripts/generate_bootstrap.mjs\<close> has
  the same text for each of them. The comparator of every \<^verbatim>\<open>sort\<close> is the difference of
  two order keys; \<^verbatim>\<open>Array.prototype.sort\<close> is stable, and \<^term>\<open>sort_key\<close> is the stable
  insertion sort.
\<close>

definition build_landingSlides :: "post option \<Rightarrow> string list" where
  "build_landingSlides landingPost =
     (case landingPost of
        None \<Rightarrow> []
      | Some p \<Rightarrow>
          (case firstBlockOfType (p_blocks p) ''slideshow'' of
             None \<Rightarrow> []
           | Some landingSlideshow \<Rightarrow> slideshowUrls landingSlideshow))"

definition release_of :: "post \<Rightarrow> release" where
  "release_of p =
     \<lparr> r_href = first_content (p_blocks p) ''link'',
       r_title = p_title p,
       r_image = first_content (p_blocks p) ''image'',
       r_order = or_zero (p_order p) \<rparr>"

definition build_releases :: "post list \<Rightarrow> release list" where
  "build_releases releasePosts =
     sort_key r_order (filter (\<lambda>r. r_href r \<noteq> [] \<and> truthy (r_title r)) (map release_of releasePosts))"

definition live_card_of :: "post \<Rightarrow> live_card" where
  "live_card_of p =
     \<lparr> lc_slug = p_slug p,
       lc_title = p_title p,
       lc_image = first_content (p_blocks p) ''image'',
       lc_order = or_zero (p_order p) \<rparr>"

definition build_liveProjects :: "post list \<Rightarrow> live_card list" where
  "build_liveProjects livePosts =
     sort_key lc_order (filter (\<lambda>r. truthy (lc_slug r)) (map live_card_of livePosts))"

text \<open>
  The video of a live post: the content of its first \<^verbatim>\<open>video\<close> block, classified by
  host. \<open>is_stream_host\<close> is the pattern
  \<^verbatim>\<open>/youtube\.com|youtu\.be|vimeo\.com|player\.vimeo\.com/\<close> on a lower-cased string. The
  reducer applies it with the flag \<^verbatim>\<open>i\<close> to the source as it is, which on ASCII text is
  the same; \<^verbatim>\<open>inferVideo\<close> lower-cases the source itself.
\<close>

definition is_stream_host :: "string \<Rightarrow> bool" where
  "is_stream_host s =
     (str_includes s ''youtube.com'' \<or> str_includes s ''youtu.be'' \<or> str_includes s ''vimeo.com''
      \<or> str_includes s ''player.vimeo.com'')"

definition block_video :: "jstr \<Rightarrow> string \<Rightarrow> video option" where
  "block_video title content =
     (let videoSrc = trim content
      in if videoSrc \<noteq> []
         then (if is_stream_host (toLowerCase videoSrc)
               then Some \<lparr> v_type = ''iframe'', v_src = videoSrc, v_title = title \<rparr>
               else Some \<lparr> v_type = ''video'', v_src = videoSrc, v_title = title \<rparr>)
         else None)"

definition live_detail_of :: "post \<Rightarrow> live_detail" where
  "live_detail_of p =
     (let slideshows = filter (\<lambda>b. b_type b = Str ''slideshow'') (or_nil (p_blocks p));
          primaryImages = (case slideshows of s0 # _ \<Rightarrow> Some (slideshowUrls s0) | _ \<Rightarrow> None);
          secondaryImages = (case slideshows of _ # s1 # _ \<Rightarrow> Some (slideshowUrls s1) | _ \<Rightarrow> None);
          video = block_video (p_title p) (first_content (p_blocks p) ''video'')
      in \<lparr> d_title = js_or (p_title p) (p_slug p),
           d_video = video,
           d_primaryImages = primaryImages,
           d_secondaryImages = secondaryImages \<rparr>)"

text \<open>The reducer of \<^verbatim>\<open>livePosts.reduce((acc, p) => ..., {})\<close> and the reduction.\<close>

definition live_detail_step :: "(string \<rightharpoonup> live_detail) \<Rightarrow> post \<Rightarrow> (string \<rightharpoonup> live_detail)" where
  "live_detail_step acc p = set_prop acc (prop_key (p_slug p)) (live_detail_of p)"

definition build_liveDetailMap :: "post list \<Rightarrow> (string \<rightharpoonup> live_detail)" where
  "build_liveDetailMap livePosts = foldl live_detail_step Map.empty livePosts"

text \<open>
  The same reduction with the object kept as the list of its properties, a property at
  the place where its key was first assigned: the form in which the bundle holds the map.
\<close>

definition live_detail_property ::
  "(string \<times> live_detail) list \<Rightarrow> post \<Rightarrow> (string \<times> live_detail) list" where
  "live_detail_property acc p =
     (if prop_key (p_slug p) = ''__proto__'' then acc
      else AList.update (prop_key (p_slug p)) (live_detail_of p) acc)"

definition liveDetailMap_properties :: "post list \<Rightarrow> (string \<times> live_detail) list" where
  "liveDetailMap_properties livePosts = foldl live_detail_property [] livePosts"

definition bio_section_of :: "post \<Rightarrow> bio_section" where
  "bio_section_of p =
     \<lparr> bio_order = or_zero (p_order p),
       bio_title = p_title p,
       bio_html = first_content (p_blocks p) ''text'' \<rparr>"

definition build_bioSections :: "post list \<Rightarrow> bio_section list" where
  "build_bioSections bioPosts =
     sort_key bio_order (filter (\<lambda>s. truthy (bio_title s)) (map bio_section_of bioPosts))"

definition contact_link_of :: "post \<Rightarrow> contact_link" where
  "contact_link_of p =
     (let href = first_content (p_blocks p) ''link''
      in \<lparr> c_order = or_zero (p_order p),
           c_label = p_title p,
           c_href = href,
           c_is_external = isExternalHref href \<rparr>)"

definition build_contactLinks :: "post list \<Rightarrow> contact_link list" where
  "build_contactLinks contactPosts =
     sort_key c_order (filter (\<lambda>l. truthy (c_label l) \<and> c_href l \<noteq> []) (map contact_link_of contactPosts))"

subsection \<open>Fetching and assembling\<close>

text \<open>
  What a request yields: a response whose status is not a success, a network failure
  (\<^verbatim>\<open>fetch\<close> rejects with a \<^verbatim>\<open>TypeError\<close>), a body that is not JSON
  (\<^verbatim>\<open>res.json()\<close> rejects with a \<^verbatim>\<open>SyntaxError\<close>), or the parsed answer.
\<close>

datatype 'a response = Status nat | Failed | Invalid | Answer 'a

text \<open>
  The parsed answer of a posts request, as far as the code looks at it. \<open>NullAnswer\<close> is
  the JSON value null. \<open>NoPosts\<close> is an answer whose \<^verbatim>\<open>posts\<close> property is missing or
  falsy. \<open>NotArray\<close> is an answer whose \<^verbatim>\<open>posts\<close> property is truthy and not an array
  (an object, a number, a string, true), with no element at index 0 that has blocks.
  \<open>Posts xs\<close> is an answer whose \<^verbatim>\<open>posts\<close> property is an array: a null entry is
  \<open>None\<close>, any other entry is read as a post.
\<close>

datatype posts_answer = NullAnswer | NoPosts | NotArray | Posts "post option list"

text \<open>
  The CMS and the configuration. \<open>sections_response\<close> answers the sections request; its
  answer is \<open>None\<close> when the JSON is not an array, and a null entry of the array reads as
  a section without slug. \<open>posts_response id\<close> answers the posts request for the section
  identifier \<open>id\<close>. A section identifier is a number, \<open>None\<close> when the section object
  has no \<^verbatim>\<open>id\<close>. \<open>request_url\<close> is the text of the URL that the build script requests
  (for the sections with \<open>None\<close>, for the posts of a section with its identifier), which
  the script puts into its error message. The configured address of the CMS is taken to
  be a valid URL, so that \<^verbatim>\<open>new URL\<close> does not throw.
\<close>

record cms =
  sections_response :: "cms_section list option response"
  posts_response :: "int option \<Rightarrow> posts_answer response"
  request_url :: "int option \<Rightarrow> string"

text \<open>Sequencing of awaited steps: the first rejection is the result.\<close>

definition and_then :: "error + 'a \<Rightarrow> ('a \<Rightarrow> error + 'b) \<Rightarrow> error + 'b" where
  "and_then r f = (case r of Inl e \<Rightarrow> Inl e | Inr x \<Rightarrow> f x)"

text \<open>The decimal text of a number, as a template literal prints it.\<close>

fun digits :: "nat \<Rightarrow> string" where
  "digits n = (if n < 10 then [char_of (48 + n)] else digits (n div 10) @ [char_of (48 + n mod 10)])"

declare digits.simps [simp del]

text \<open>\<^verbatim>\<open>fetchJson\<close> of the application: \<^verbatim>\<open>throw new Error(`HTTP ${res.status}`)\<close>.\<close>

definition fetchJson :: "'a response \<Rightarrow> error + 'a" where
  "fetchJson r =
     (case r of
        Status n \<Rightarrow> Inl (Error (''HTTP '' @ digits n))
      | Failed \<Rightarrow> Inl TypeError
      | Invalid \<Rightarrow> Inl SyntaxError
      | Answer v \<Rightarrow> Inr v)"

text \<open>\<^verbatim>\<open>sections.forEach(s => { if (s?.slug) bySlug[s.slug] = s })\<close>.\<close>

definition bySlug_step :: "(string \<rightharpoonup> cms_section) \<Rightarrow> cms_section \<Rightarrow> (string \<rightharpoonup> cms_section)" where
  "bySlug_step acc s = (if truthy (s_slug s) then set_prop acc (prop_key (s_slug s)) s else acc)"

definition bySlug_of :: "cms_section list \<Rightarrow> (string \<rightharpoonup> cms_section)" where
  "bySlug_of sections = foldl bySlug_step Map.empty sections"

definition requireSection :: "(string \<rightharpoonup> cms_section) \<Rightarrow> string \<Rightarrow> error + cms_section" where
  "requireSection bySlug slug =
     (case bySlug slug of
        None \<Rightarrow> Inl (Error (''Missing section: '' @ slug))
      | Some s \<Rightarrow> Inr s)"

text \<open>
  What \<^verbatim>\<open>fetchPosts\<close> of the application returns, \<^verbatim>\<open>data.posts || []\<close>: an array, or
  a truthy value that is not one. Reading \<^verbatim>\<open>data.posts\<close> of null is a
  \<^verbatim>\<open>TypeError\<close>.
\<close>

datatype posts_value = NoArray | Array "post option list"

definition fetchPosts :: "cms \<Rightarrow> int option \<Rightarrow> error + posts_value" where
  "fetchPosts c sectionId =
     and_then (fetchJson (posts_response c sectionId)) (\<lambda>data.
       case data of
         NullAnswer \<Rightarrow> Inl TypeError
       | NoPosts \<Rightarrow> Inr (Array [])
       | NotArray \<Rightarrow> Inr NoArray
       | Posts xs \<Rightarrow> Inr (Array xs))"

text \<open>\<^verbatim>\<open>landingPosts[0]\<close>, which \<^verbatim>\<open>landingPost?.blocks\<close> reads without throwing.\<close>

definition first_post :: "posts_value \<Rightarrow> post option" where
  "first_post v = (case v of NoArray \<Rightarrow> None | Array [] \<Rightarrow> None | Array (p # _) \<Rightarrow> p)"

text \<open>
  The posts that the callback of \<^verbatim>\<open>posts.map(p => ...)\<close> and of \<^verbatim>\<open>posts.reduce\<close>
  receives. The callbacks read \<^verbatim>\<open>p.blocks\<close>, \<^verbatim>\<open>p.title\<close> and \<^verbatim>\<open>p.slug\<close>, a
  \<^verbatim>\<open>TypeError\<close> at the first null entry; so is the call of \<^verbatim>\<open>map\<close> on a value
  that is not an array.
\<close>

fun each_post :: "post option list \<Rightarrow> error + post list" where
  "each_post [] = Inr []"
| "each_post (None # ps) = Inl TypeError"
| "each_post (Some p # ps) = (case each_post ps of Inl e \<Rightarrow> Inl e | Inr qs \<Rightarrow> Inr (p # qs))"

definition mapped_posts :: "posts_value \<Rightarrow> error + post list" where
  "mapped_posts v = (case v of NoArray \<Rightarrow> Inl TypeError | Array ps \<Rightarrow> each_post ps)"

text \<open>
  \<^verbatim>\<open>buildDataFromCms\<close> of the application. \<^verbatim>\<open>sections.forEach\<close> on a value that is
  not an array is a \<^verbatim>\<open>TypeError\<close>. The five sections are required in the order of
  the source; then, section by section, the posts are fetched and transformed.
\<close>

definition buildDataFromCms :: "cms \<Rightarrow> error + bootstrap" where
  "buildDataFromCms c =
     and_then (fetchJson (sections_response c)) (\<lambda>sections.
     and_then (case sections of None \<Rightarrow> Inl TypeError | Some ss \<Rightarrow> Inr (bySlug_of ss)) (\<lambda>bySlug.
     and_then (requireSection bySlug ''landing'') (\<lambda>landingSection.
     and_then (requireSection bySlug ''releases'') (\<lambda>releasesSection.
     and_then (requireSection bySlug ''live'') (\<lambda>liveSection.
     and_then (requireSection bySlug ''bio'') (\<lambda>bioSection.
     and_then (requireSection bySlug ''contact'') (\<lambda>contactSection.
     and_then (fetchPosts c (s_id landingSection)) (\<lambda>landingPosts.
     and_then (fetchPosts c (s_id releasesSection)) (\<lambda>releasePosts.
     and_then (mapped_posts releasePosts) (\<lambda>releasePosts.
     and_then (fetchPosts c (s_id liveSection)) (\<lambda>livePosts.
     and_then (mapped_posts livePosts) (\<lambda>livePosts.
     and_then (fetchPosts c (s_id bioSection)) (\<lambda>bioPosts.
     and_then (mapped_posts bioPosts) (\<lambda>bioPosts.
     and_then (fetchPosts c (s_id contactSection)) (\<lambda>contactPosts.
     and_then (mapped_posts contactPosts) (\<lambda>contactPosts.
       Inr \<lparr> landingSlides = Some (build_landingSlides (first_post landingPosts)),
             releases = Some (build_releases releasePosts),
             liveProjects = Some (build_liveProjects livePosts),
             liveDetailMap = Some (liveDetailMap_properties livePosts),
             bioSections = Some (build_bioSections bioPosts),
             contactLinks = Some (build_contactLinks contactPosts) \<rparr>))))))))))))))))"

subsection \<open>The build script\<close>

text \<open>
  \<^verbatim>\<open>scripts/generate_bootstrap.mjs\<close>. Its \<^verbatim>\<open>fetchJson\<close> throws
  \<^verbatim>\<open>new Error(`HTTP ${res.status} for ${url}`)\<close>. Its \<^verbatim>\<open>requireSectionId\<close> throws when
  the section is missing or when its \<^verbatim>\<open>id\<close> is falsy (missing, null or 0), and returns
  the id. Its \<^verbatim>\<open>fetchPosts\<close> returns \<^verbatim>\<open>Array.isArray(data?.posts) ? data.posts : []\<close>.
\<close>

definition fetchJson_script :: "string \<Rightarrow> 'a response \<Rightarrow> error + 'a" where
  "fetchJson_script url r =
     (case r of
        Status n \<Rightarrow> Inl (Error (''HTTP '' @ digits n @ '' for '' @ url))
      | Failed \<Rightarrow> Inl TypeError
      | Invalid \<Rightarrow> Inl SyntaxError
      | Answer v \<Rightarrow> Inr v)"

definition requireSectionId :: "(string \<rightharpoonup> cms_section) \<Rightarrow> string \<Rightarrow> error + int" where
  "requireSectionId bySlug slug =
     (case bySlug slug of
        None \<Rightarrow> Inl (Error (''Missing section slug: '' @ slug))
      | Some s \<Rightarrow>
          (case s_id s of
             None \<Rightarrow> Inl (Error (''Missing section slug: '' @ slug))
           | Some i \<Rightarrow> if i = 0 then Inl (Error (''Missing section slug: '' @ slug)) else Inr i))"

definition fetchPosts_script :: "cms \<Rightarrow> int \<Rightarrow> error + post option list" where
  "fetchPosts_script c sectionId =
     and_then (fetchJson_script (request_url c (Some sectionId)) (posts_response c (Some sectionId)))
       (\<lambda>data. Inr (case data of Posts xs \<Rightarrow> xs | _ \<Rightarrow> []))"

text \<open>
  \<^verbatim>\<open>buildBootstrap\<close>. A sections answer that is not an array counts as no section. The
  five \<^verbatim>\<open>fetchPosts\<close> run under \<^verbatim>\<open>Promise.all\<close>, which rejects with the rejection
  that settles first; here they are taken in the order of the array. The transforms
  follow when all five have answered; \<^verbatim>\<open>landingPosts?.[0]?.blocks\<close> reads a null entry
  without throwing.
\<close>

definition buildBootstrap :: "cms \<Rightarrow> error + bootstrap" where
  "buildBootstrap c =
     and_then (fetchJson_script (request_url c None) (sections_response c)) (\<lambda>sections.
     let bySlug = bySlug_of (or_nil sections) in
     and_then (requireSectionId bySlug ''landing'') (\<lambda>landingId.
     and_then (requireSectionId bySlug ''releases'') (\<lambda>releasesId.
     and_then (requireSectionId bySlug ''live'') (\<lambda>liveId.
     and_then (requireSectionId bySlug ''bio'') (\<lambda>bioId.
     and_then (requireSectionId bySlug ''contact'') (\<lambda>contactId.
     and_then (fetchPosts_script c landingId) (\<lambda>landingPosts.
     and_then (fetchPosts_script c releasesId) (\<lambda>releasePosts.
     and_then (fetchPosts_script c liveId) (\<lambda>livePosts.
     and_then (fetchPosts_script c bioId) (\<lambda>bioPosts.
     and_then (fetchPosts_script c contactId) (\<lambda>contactPosts.
     and_then (each_post releasePosts) (\<lambda>releasePosts.
     and_then (each_post livePosts) (\<lambda>livePosts.
     and_then (each_post bioPosts) (\<lambda>bioPosts.
     and_then (each_post contactPosts) (\<lambda>contactPosts.
       Inr \<lparr> landingSlides = Some (build_landingSlides (first_post (Array landingPosts))),
             releases = Some (build_releases releasePosts),
             liveProjects = Some (build_liveProjects livePosts),
             liveDetailMap = Some (liveDetailMap_properties livePosts),
             bioSections = Some (build_bioSections bioPosts),
             contactLinks = Some (build_contactLinks contactPosts) \<rparr>)))))))))))))))"

text \<open>
  \<^verbatim>\<open>main().catch(... process.exit(1))\<close>: the exit status of the script and the
  snapshot it writes. Failures of the file system are not represented.
\<close>

definition main :: "cms \<Rightarrow> nat \<times> bootstrap option" where
  "main c =
     (case buildBootstrap c of
        Inl err \<Rightarrow> (1, None)
      | Inr b \<Rightarrow>
          if landingSlides b \<noteq> None \<and> releases b \<noteq> None then (0, Some b) else (1, None))"

subsection \<open>Video inference on a row\<close>

record row =
  row_video_src :: jstr
  row_video_type :: jstr
  row_video_title :: jstr
  row_title :: jstr

text \<open>The tail \<^verbatim>\<open>(\?.*)?$\<close> of the extension pattern: nothing, or a question mark
  followed by characters that are not line terminators, up to the end.\<close>

definition query_tail :: "string \<Rightarrow> bool" where
  "query_tail r =
     (case r of [] \<Rightarrow> True
      | c # cs \<Rightarrow> c = CHR ''?'' \<and> list_all (\<lambda>x. x \<noteq> CHR 0x0A \<and> x \<noteq> CHR 0x0D) cs)"

text \<open>\<^verbatim>\<open>/\.(mp4|mov|webm|ogg)(\?.*)?$/.test(s)\<close>.\<close>

fun ext_match :: "string \<Rightarrow> bool" where
  "ext_match [] = False"
| "ext_match (c # cs) =
     ((c = CHR ''.'' \<and>
       list_ex (\<lambda>e. prefix e cs \<and> query_tail (drop (length e) cs)) [''mp4'', ''mov'', ''webm'', ''ogg''])
      \<or> ext_match cs)"

definition inferVideo :: "row \<Rightarrow> video option" where
  "inferVideo r =
     (let videoSrc = trim (or_empty (row_video_src r))
      in if videoSrc = [] then None
         else
           let explicitType = toLowerCase (trim (or_empty (row_video_type r)))
           in if explicitType \<noteq> [] \<and> explicitType \<noteq> ''none''
              then Some \<lparr> v_type = explicitType, v_src = videoSrc,
                          v_title = js_or (row_video_title r) (row_title r) \<rparr>
              else
                let lower = toLowerCase videoSrc;
                    isLocalVideo = (ext_match lower \<or> prefix ''/images/'' lower
                                    \<or> prefix ''/videos/'' lower \<or> prefix ''/'' lower);
                    isIframe = is_stream_host lower
                in if isIframe
                   then Some \<lparr> v_type = ''iframe'', v_src = videoSrc,
                               v_title = js_or (row_video_title r) (row_title r) \<rparr>
                   else if isLocalVideo
                   then Some \<lparr> v_type = ''video'', v_src = videoSrc,
                               v_title = js_or (row_video_title r) (row_title r) \<rparr>
                   else None)"

section \<open>Cache store\<close>

subsection \<open>Values and their copy through JSON\<close>

text \<open>
  The values that can be cached and read back. Numbers are the integers, \<^verbatim>\<open>NaN\<close> and
  the two infinities (\<open>JInf True\<close> is the positive one); fractions are not represented. An
  object is the list of its own enumerable properties; the order of the list has no
  meaning, since the code reads properties by name, and no name occurs twice. \<open>JDate\<close> is
  a valid date with the text that \<^verbatim>\<open>toISOString\<close> gives, \<open>JFunction\<close> a function or a
  symbol. Cyclic structures, objects with a \<^verbatim>\<open>toJSON\<close> method of their own, and
  instances of classes such as \<^verbatim>\<open>Map\<close> are not represented.
\<close>

datatype jsval =
    JUndefined | JNull | JBool bool | JNum int | JNaN | JInf bool | JStr string
  | JArr "jsval list" | JObj "(string \<times> jsval) list"
  | JDate string | JBigInt int | JFunction

fun js_truthy :: "jsval \<Rightarrow> bool" where
  "js_truthy JUndefined = False"
| "js_truthy JNull = False"
| "js_truthy (JBool b) = b"
| "js_truthy (JNum n) = (n \<noteq> 0)"
| "js_truthy JNaN = False"
| "js_truthy (JInf p) = True"
| "js_truthy (JStr s) = (s \<noteq> [])"
| "js_truthy (JArr xs) = True"
| "js_truthy (JObj ps) = True"
| "js_truthy (JDate s) = True"
| "js_truthy (JBigInt n) = (n \<noteq> 0)"
| "js_truthy JFunction = True"

text \<open>\<^verbatim>\<open>a || b\<close> and \<^verbatim>\<open>a ?? b\<close>.\<close>

definition or_else :: "jsval \<Rightarrow> jsval \<Rightarrow> jsval" where
  "or_else a b = (if js_truthy a then a else b)"

definition nullish_else :: "jsval \<Rightarrow> jsval \<Rightarrow> jsval" where
  "nullish_else a b = (if a = JUndefined \<or> a = JNull then b else a)"

text \<open>
  \<^verbatim>\<open>v.name\<close> for the names the code reads (none of them is a property of a prototype),
  on a value that is neither null nor undefined.
\<close>

definition get_prop :: "jsval \<Rightarrow> string \<Rightarrow> jsval" where
  "get_prop v name =
     (case v of
        JObj ps \<Rightarrow> (case map_of ps name of None \<Rightarrow> JUndefined | Some w \<Rightarrow> w)
      | _ \<Rightarrow> JUndefined)"

text \<open>\<^verbatim>\<open>JSON.stringify\<close> throws a \<^verbatim>\<open>TypeError\<close> when it meets a BigInt.\<close>

primrec json_throws :: "jsval \<Rightarrow> bool" where
  "json_throws JUndefined = False"
| "json_throws JNull = False"
| "json_throws (JBool b) = False"
| "json_throws (JNum n) = False"
| "json_throws JNaN = False"
| "json_throws (JInf p) = False"
| "json_throws (JStr s) = False"
| "json_throws (JArr xs) = list_ex id (map json_throws xs)"
| "json_throws (JObj ps) = list_ex snd (map (map_prod id json_throws) ps)"
| "json_throws (JDate s) = False"
| "json_throws (JBigInt n) = True"
| "json_throws JFunction = False"

text \<open>
  \<^verbatim>\<open>JSON.parse(JSON.stringify(v))\<close> for a value inside an object or an array, when
  nothing throws: \<^verbatim>\<open>NaN\<close> and the infinities become null, a date becomes its text, a
  function becomes undefined; an undefined element of an array becomes null, and a
  property whose value is undefined is left out.
\<close>

primrec json_copy :: "jsval \<Rightarrow> jsval" where
  "json_copy JUndefined = JUndefined"
| "json_copy JNull = JNull"
| "json_copy (JBool b) = JBool b"
| "json_copy (JNum n) = JNum n"
| "json_copy JNaN = JNull"
| "json_copy (JInf p) = JNull"
| "json_copy (JStr s) = JStr s"
| "json_copy (JArr xs) = JArr (map (\<lambda>v. if v = JUndefined then JNull else v) (map json_copy xs))"
| "json_copy (JObj ps) = JObj (filter (\<lambda>kv. snd kv \<noteq> JUndefined) (map (map_prod id json_copy) ps))"
| "json_copy (JDate s) = JStr s"
| "json_copy (JBigInt n) = JUndefined"
| "json_copy JFunction = JUndefined"

subsection \<open>The store\<close>

text \<open>
  \<^verbatim>\<open>sessionStorage\<close>. A stored item is a text; \<open>Parsed v\<close> is a text that
  \<^verbatim>\<open>JSON.parse\<close> turns into \<open>v\<close>, \<open>Unparsable\<close> a text for which it throws, or the
  empty text. \<open>quota_exceeded\<close> says that \<^verbatim>\<open>setItem\<close> throws, which \<^verbatim>\<open>setCached\<close>
  catches. Clock values are \<^verbatim>\<open>Date.now()\<close>, integers of milliseconds.
\<close>

datatype item = Unparsable | Parsed jsval

record storage =
  items :: "string \<rightharpoonup> item"
  quota_exceeded :: bool

record entry =
  data :: jsval
  timestamp :: jsval

definition CACHE_TTL :: int where
  "CACHE_TTL = 1 * 60 * 1000"

definition BOOTSTRAP_CACHE_KEY :: "string \<Rightarrow> string" where
  "BOOTSTRAP_CACHE_KEY CMS_SITE_ID =
     ''cms_bootstrap_v2_'' @ (if CMS_SITE_ID \<noteq> [] then CMS_SITE_ID else ''auto'')"

text \<open>\<^verbatim>\<open>typeof v === 'number'\<close>.\<close>

definition is_number :: "jsval \<Rightarrow> bool" where
  "is_number v = (case v of JNum n \<Rightarrow> True | JNaN \<Rightarrow> True | JInf p \<Rightarrow> True | _ \<Rightarrow> False)"

text \<open>
  \<^verbatim>\<open>getCachedEntry\<close>. Destructuring null throws, which the \<^verbatim>\<open>catch\<close> turns into null;
  destructuring any other value reads its two properties.
\<close>

definition getCachedEntry :: "storage \<Rightarrow> string \<Rightarrow> entry option" where
  "getCachedEntry store key =
     (case items store key of
        None \<Rightarrow> None
      | Some Unparsable \<Rightarrow> None
      | Some (Parsed v) \<Rightarrow>
          if v = JNull \<or> v = JUndefined then None
          else if \<not> is_number (get_prop v ''timestamp'') then None
          else Some \<lparr> data = get_prop v ''data'', timestamp = get_prop v ''timestamp'' \<rparr>)"

text \<open>\<^verbatim>\<open>now - timestamp > CACHE_TTL\<close> for a timestamp that is a number.\<close>

definition expired :: "int \<Rightarrow> jsval \<Rightarrow> bool" where
  "expired now ts =
     (case ts of JNum t \<Rightarrow> now - t > CACHE_TTL | JInf p \<Rightarrow> \<not> p | _ \<Rightarrow> False)"

text \<open>The second argument is the value of \<^verbatim>\<open>Date.now()\<close> at the call.\<close>

definition getCachedFresh :: "storage \<Rightarrow> int \<Rightarrow> string \<Rightarrow> jsval" where
  "getCachedFresh store now key =
     (case getCachedEntry store key of
        None \<Rightarrow> JNull
      | Some entry \<Rightarrow> if expired now (timestamp entry) then JNull else data entry)"

definition getCachedAny :: "storage \<Rightarrow> string \<Rightarrow> jsval" where
  "getCachedAny store key =
     (case getCachedEntry store key of
        None \<Rightarrow> JNull
      | Some entry \<Rightarrow> nullish_else (data entry) JNull)"

text \<open>
  \<^verbatim>\<open>setCached\<close>: \<^verbatim>\<open>JSON.stringify({ data, timestamp: Date.now() })\<close> and \<^verbatim>\<open>setItem\<close>
  inside \<^verbatim>\<open>try\<close>; when either throws, nothing is stored. What is stored is the text
  of the object, which \<^verbatim>\<open>JSON.parse\<close> turns into its copy.
\<close>

definition setCached :: "storage \<Rightarrow> int \<Rightarrow> string \<Rightarrow> jsval \<Rightarrow> storage" where
  "setCached store now key d =
     (let object = JObj [(''data'', d), (''timestamp'', JNum now)]
      in if json_throws object then store
         else if quota_exceeded store then store
         else store \<lparr> items := (items store)(key \<mapsto> Parsed (json_copy object)) \<rparr>)"

section \<open>Bootstrap orchestrator\<close>

subsection \<open>The bundle as a value\<close>

text \<open>
  The bundle that \<^verbatim>\<open>buildDataFromCms\<close> returns, as the value that \<^verbatim>\<open>load\<close> caches and
  puts into the state: every record as the object with the property names of the source.
\<close>

fun js_of_jstr :: "jstr \<Rightarrow> jsval" where
  "js_of_jstr Undefined = JUndefined"
| "js_of_jstr Null = JNull"
| "js_of_jstr (Str s) = JStr s"

definition js_of_strings :: "string list \<Rightarrow> jsval" where
  "js_of_strings xs = JArr (map JStr xs)"

definition js_of_release :: "release \<Rightarrow> jsval" where
  "js_of_release r =
     JObj [(''href'', JStr (r_href r)), (''title'', js_of_jstr (r_title r)),
           (''image'', JStr (r_image r)), (''order'', JNum (r_order r))]"

definition js_of_live_card :: "live_card \<Rightarrow> jsval" where
  "js_of_live_card r =
     JObj [(''slug'', js_of_jstr (lc_slug r)), (''title'', js_of_jstr (lc_title r)),
           (''image'', JStr (lc_image r)), (''order'', JNum (lc_order r))]"

definition js_of_video :: "video \<Rightarrow> jsval" where
  "js_of_video v =
     JObj [(''type'', JStr (v_type v)), (''src'', JStr (v_src v)), (''title'', js_of_jstr (v_title v))]"

definition js_of_images :: "string list option \<Rightarrow> jsval" where
  "js_of_images xs = (case xs of None \<Rightarrow> JNull | Some ys \<Rightarrow> js_of_strings ys)"

definition js_of_live_detail :: "live_detail \<Rightarrow> jsval" where
  "js_of_live_detail d =
     JObj [(''title'', js_of_jstr (d_title d)),
           (''video'', case d_video d of None \<Rightarrow> JNull | Some v \<Rightarrow> js_of_video v),
           (''primaryImages'', js_of_images (d_primaryImages d)),
           (''secondaryImages'', js_of_images (d_secondaryImages d))]"

definition js_of_bio_section :: "bio_section \<Rightarrow> jsval" where
  "js_of_bio_section s =
     JObj [(''order'', JNum (bio_order s)), (''title'', js_of_jstr (bio_title s)),
           (''html'', JStr (bio_html s))]"

definition js_of_contact_link :: "contact_link \<Rightarrow> jsval" where
  "js_of_contact_link l =
     JObj [(''order'', JNum (c_order l)), (''label'', js_of_jstr (c_label l)),
           (''href'', JStr (c_href l)), (''is_external'', JBool (c_is_external l))]"

definition js_of_list :: "('a \<Rightarrow> jsval) \<Rightarrow> 'a list option \<Rightarrow> jsval" where
  "js_of_list f xs = (case xs of None \<Rightarrow> JUndefined | Some ys \<Rightarrow> JArr (map f ys))"

definition js_of_bootstrap :: "bootstrap \<Rightarrow> jsval" where
  "js_of_bootstrap b =
     JObj [(''landingSlides'', js_of_list JStr (landingSlides b)),
           (''releases'', js_of_list js_of_release (releases b)),
           (''liveProjects'', js_of_list js_of_live_card (liveProjects b)),
           (''liveDetailMap'',
              case liveDetailMap b of
                None \<Rightarrow> JUndefined
              | Some ps \<Rightarrow> JObj (map (map_prod id js_of_live_detail) ps)),
           (''bioSections'', js_of_list js_of_bio_section (bioSections b)),
           (''contactLinks'', js_of_list js_of_contact_link (contactLinks b))]"

subsection \<open>The state and \<^verbatim>\<open>load\<close>\<close>

text \<open>The seven \<^verbatim>\<open>useState\<close> cells of \<^verbatim>\<open>App\<close>, with their initial values.\<close>

record app_state =
  st_landingSlides :: jsval
  st_releases :: jsval
  st_liveProjects :: jsval
  st_liveDetailMap :: jsval
  st_bioSections :: jsval
  st_contactLinks :: jsval
  dataLoaded :: bool

definition initial_state :: app_state where
  "initial_state =
     \<lparr> st_landingSlides = JArr [], st_releases = JArr [], st_liveProjects = JArr [],
       st_liveDetailMap = JObj [], st_bioSections = JArr [], st_contactLinks = JArr [],
       dataLoaded = False \<rparr>"

text \<open>
  The seven setter calls that both branches of \<^verbatim>\<open>load\<close> make from a bundle \<open>b\<close>:
  \<^verbatim>\<open>setLandingSlides(b.landingSlides || [])\<close> and so on, \<^verbatim>\<open>setDataLoaded(true)\<close> last.
\<close>

definition populate :: "jsval \<Rightarrow> app_state \<Rightarrow> app_state" where
  "populate b st =
     st \<lparr> st_landingSlides := or_else (get_prop b ''landingSlides'') (JArr []),
          st_releases := or_else (get_prop b ''releases'') (JArr []),
          st_liveProjects := or_else (get_prop b ''liveProjects'') (JArr []),
          st_liveDetailMap := or_else (get_prop b ''liveDetailMap'') (JObj []),
          st_bioSections := or_else (get_prop b ''bioSections'') (JArr []),
          st_contactLinks := or_else (get_prop b ''contactLinks'') (JArr []),
          dataLoaded := True \<rparr>"

text \<open>
  \<^verbatim>\<open>load\<close>: \<open>now\<close> is the clock when the cache is read, \<open>now'\<close> the clock when the
  fetched bundle is cached.
\<close>

definition load ::
  "string \<Rightarrow> int \<Rightarrow> cms \<Rightarrow> int \<Rightarrow> storage \<times> app_state \<Rightarrow> storage \<times> app_state" where
  "load CMS_SITE_ID now c now' x =
     (let store = fst x; st = snd x;
          cached = getCachedFresh store now (BOOTSTRAP_CACHE_KEY CMS_SITE_ID);
          st1 = (if js_truthy cached then populate cached st else st)
      in case buildDataFromCms c of
           Inr d \<Rightarrow>
             (setCached store now' (BOOTSTRAP_CACHE_KEY CMS_SITE_ID) (js_of_bootstrap d),
              populate (js_of_bootstrap d) st1)
         | Inl err \<Rightarrow> (store, if \<not> js_truthy cached then st1 \<lparr> dataLoaded := False \<rparr> else st1))"

section \<open>Slider engine\<close>

text \<open>
  One \<^verbatim>\<open>MediaSlider\<close> instance: its state cells, the clock, and the timeouts that are
  pending. \<open>resumeTimers\<close> holds the due times of the \<^verbatim>\<open>setTimeout(..., 3000)\<close> calls
  of \<^verbatim>\<open>goPrev\<close> and \<^verbatim>\<open>goNext\<close>, oldest first; nothing in the source clears them.
  \<open>autoTimer\<close> is the due time of the timeout of the autoplay effect, which the cleanup
  of the effect clears. \<open>intervalMs\<close> is a natural number of milliseconds. A timeout
  fires when the clock reaches its due time.
\<close>

record slider =
  files :: "string list"
  intervalMs :: nat
  index :: int
  lastManualNavigation :: int
  autoPlayPaused :: bool
  resumeTimers :: "int list"
  autoTimer :: "int option"
  now :: int

text \<open>The remainder operator \<^verbatim>\<open>%\<close>, whose result has the sign of the dividend.\<close>

definition js_rem :: "int \<Rightarrow> int \<Rightarrow> int" where
  "js_rem a b = (if a < 0 then - ((- a) mod \<bar>b\<bar>) else a mod \<bar>b\<bar>)"

text \<open>\<^verbatim>\<open>scheduleNext\<close>: the timeout is armed \<open>delay\<close> after the current clock.\<close>

definition scheduleNext :: "slider \<Rightarrow> slider" where
  "scheduleNext s =
     (let timeSinceLastNav = now s - lastManualNavigation s;
          delay = max (int (intervalMs s)) (int (intervalMs s) - timeSinceLastNav)
      in s \<lparr> autoTimer := Some (now s + delay) \<rparr>)"

text \<open>
  The autoplay effect, run again after a render in which one of its dependencies
  changed: the cleanup clears the pending timeout, then the body either returns at its
  guard or starts the cycle.
\<close>

definition autoplay_effect :: "slider \<Rightarrow> slider" where
  "autoplay_effect s =
     (let s0 = s \<lparr> autoTimer := None \<rparr>
      in if intervalMs s0 = 0 \<or> length (files s0) \<le> 1 \<or> autoPlayPaused s0 then s0
         else scheduleNext s0)"

text \<open>
  The render after state updates: the effect runs again only when \<^verbatim>\<open>files\<close>,
  \<^verbatim>\<open>intervalMs\<close>, \<^verbatim>\<open>lastManualNavigation\<close> or \<^verbatim>\<open>autoPlayPaused\<close> differ from
  the previous render.
\<close>

definition rerender :: "slider \<Rightarrow> slider \<Rightarrow> slider" where
  "rerender old new =
     (if files new \<noteq> files old \<or> intervalMs new \<noteq> intervalMs old
         \<or> lastManualNavigation new \<noteq> lastManualNavigation old
         \<or> autoPlayPaused new \<noteq> autoPlayPaused old
      then autoplay_effect new else new)"

definition goPrev :: "slider \<Rightarrow> slider" where
  "goPrev s =
     (if files s = [] then s
      else rerender s
             (s \<lparr> autoPlayPaused := True,
                  index := js_rem (index s - 1 + int (length (files s))) (int (length (files s))),
                  lastManualNavigation := now s,
                  resumeTimers := resumeTimers s @ [now s + 3000] \<rparr>))"

definition goNext :: "slider \<Rightarrow> slider" where
  "goNext s =
     (if files s = [] then s
      else rerender s
             (s \<lparr> autoPlayPaused := True,
                  index := js_rem (index s + 1) (int (length (files s))),
                  lastManualNavigation := now s,
                  resumeTimers := resumeTimers s @ [now s + 3000] \<rparr>))"

text \<open>
  The oldest 3000 ms timeout fires: \<^verbatim>\<open>setAutoPlayPaused(false)\<close>. Setting the value
  the cell already has causes no render.
\<close>

definition fire_resume :: "slider \<Rightarrow> slider" where
  "fire_resume s =
     (let s1 = s \<lparr> resumeTimers := tl (resumeTimers s) \<rparr>
      in rerender s1 (s1 \<lparr> autoPlayPaused := False \<rparr>))"

text \<open>
  The autoplay timeout fires. Its callback belongs to a run of the effect that passed the
  guard, and the values it captured are those of the state: a change of any of them runs
  the effect again, which clears the timeout. The guard is repeated here, so that the
  callback is defined on every state.
\<close>

definition fire_auto :: "slider \<Rightarrow> slider" where
  "fire_auto s =
     (if intervalMs s = 0 \<or> length (files s) \<le> 1 \<or> autoPlayPaused s
      then s \<lparr> autoTimer := None \<rparr>
      else scheduleNext (s \<lparr> index := js_rem (index s + 1) (int (length (files s))) \<rparr>))"

text \<open>
  The clock advances to \<open>t\<close>: every pending timeout that is due by then fires at its
  due time, the earliest first, a 3000 ms timeout before the autoplay timeout when
  both are due at the same time.
\<close>

definition resume_due :: "int \<Rightarrow> slider \<Rightarrow> bool" where
  "resume_due t s =
     (case resumeTimers s of
        [] \<Rightarrow> False
      | d # _ \<Rightarrow> d \<le> t \<and> (case autoTimer s of None \<Rightarrow> True | Some a \<Rightarrow> d \<le> a))"

definition auto_due :: "int \<Rightarrow> slider \<Rightarrow> bool" where
  "auto_due t s = (case autoTimer s of None \<Rightarrow> False | Some a \<Rightarrow> a \<le> t)"

function run_until :: "int \<Rightarrow> slider \<Rightarrow> slider" where
  "run_until t s =
     (if resume_due t s
      then run_until t (fire_resume (s \<lparr> now := max (now s) (hd (resumeTimers s)) \<rparr>))
      else if auto_due t s
      then run_until t (fire_auto (s \<lparr> now := max (now s) (the (autoTimer s)) \<rparr>))
      else s \<lparr> now := max (now s) t \<rparr>)"
  by pat_completeness auto
termination
proof (relation "measures [\<lambda>(t, s). length (resumeTimers s),
                           \<lambda>(t, s). (case autoTimer s of None \<Rightarrow> 0 | Some a \<Rightarrow> nat (t + 1 - a))]")
  show "wf (measures [\<lambda>(t, s). length (resumeTimers s),
                      \<lambda>(t, s). (case autoTimer s of None \<Rightarrow> 0 | Some a \<Rightarrow> nat (t + 1 - a))])"
    by simp
next
  fix t :: int and s :: slider
  assume "resume_due t s"
  then show "((t, fire_resume (s \<lparr> now := max (now s) (hd (resumeTimers s)) \<rparr>)), (t, s))
    \<in> measures [\<lambda>(t, s). length (resumeTimers s),
                 \<lambda>(t, s). (case autoTimer s of None \<Rightarrow> 0 | Some a \<Rightarrow> nat (t + 1 - a))]"
    by (auto simp: resume_due_def fire_resume_def rerender_def autoplay_effect_def
        scheduleNext_def Let_def split: list.splits)
next
  fix t :: int and s :: slider
  assume "\<not> resume_due t s" and "auto_due t s"
  then show "((t, fire_auto (s \<lparr> now := max (now s) (the (autoTimer s)) \<rparr>)), (t, s))
    \<in> measures [\<lambda>(t, s). length (resumeTimers s),
                 \<lambda>(t, s). (case autoTimer s of None \<Rightarrow> 0 | Some a \<Rightarrow> nat (t + 1 - a))]"
    by (auto simp: auto_due_def fire_auto_def scheduleNext_def Let_def split: option.splits)
qed

declare run_until.simps [simp del]

text \<open>A freshly mounted slider showing \<open>fs\<close> at clock \<open>t\<close>, after its first effects.\<close>

definition mounted :: "string list \<Rightarrow> nat \<Rightarrow> int \<Rightarrow> slider" where
  "mounted fs ms t =
     autoplay_effect
       \<lparr> files = fs, intervalMs = ms, index = 0, lastManualNavigation = 0,
         autoPlayPaused = False, resumeTimers = [], autoTimer = None, now = t \<rparr>"

section \<open>Scramble animation\<close>

text \<open>
  \<^verbatim>\<open>TextScramble\<close> in \<^verbatim>\<open>hooks/useScramble.js\<close>. Text is a list of UTF-16 code units,
  since the substitution alphabet is not ASCII. A cell of the rendered element is plain
  text or one glyph inside \<^verbatim>\<open><span class="glitching">\<close>; the text itself holds no
  markup.
\<close>

type_synonym ustring = "nat list"

datatype cell = Plain ustring | Glitching nat

record qitem =
  q_from :: ustring
  q_to :: ustring
  q_start :: nat
  q_end :: nat
  q_char :: "nat option"

text \<open>
  The object and its element. \<open>pending\<close> holds the identifiers of the animation frames
  that were requested and have neither run nor been cancelled, \<open>frameRequest\<close> is
  \<^verbatim>\<open>this.frameRequest\<close>, \<open>next_id\<close> the identifier that the next
  \<^verbatim>\<open>requestAnimationFrame\<close> returns, \<open>resolves\<close> the number of calls of
  \<^verbatim>\<open>this.resolve\<close>.
\<close>

record scramble =
  el :: "cell list"
  queue :: "qitem list"
  frame :: nat
  frameRequest :: "nat option"
  pending :: "nat list"
  next_id :: nat
  isAnimating :: bool
  resolves :: nat

text \<open>The substitution alphabet \<^verbatim>\<open>this.chars\<close>, twelve box-drawing characters.\<close>

definition chars :: ustring where
  "chars = [0x2591, 0x2592, 0x2593, 0x2502, 0x250C, 0x2510, 0x2514, 0x2518,
            0x256D, 0x256E, 0x256F, 0x2570]"

text \<open>
  The values of \<^verbatim>\<open>Math.random()\<close> are inputs. For the character at position \<open>i\<close>:
  \<open>d_start i\<close> and \<open>d_span i\<close> give \<^verbatim>\<open>Math.floor(Math.random() * 30)\<close> and
  \<^verbatim>\<open>Math.floor(Math.random() * 20)\<close> (reduced into their ranges), \<open>u_coin i\<close> is
  \<^verbatim>\<open>Math.random() < 0.15\<close>, and \<open>u_glyph i\<close> gives the index that \<^verbatim>\<open>randomChar\<close> draws.
\<close>

record draws =
  d_start :: "nat \<Rightarrow> nat"
  d_span :: "nat \<Rightarrow> nat"
  u_coin :: "nat \<Rightarrow> bool"
  u_glyph :: "nat \<Rightarrow> nat"

definition TextScramble :: "cell list \<Rightarrow> scramble" where
  "TextScramble e =
     \<lparr> el = e, queue = [], frame = 0, frameRequest = None, pending = [], next_id = 0,
       isAnimating = False, resolves = 0 \<rparr>"

definition cell_text :: "cell \<Rightarrow> ustring" where
  "cell_text c = (case c of Plain t \<Rightarrow> t | Glitching g \<Rightarrow> [g])"

definition innerText :: "scramble \<Rightarrow> ustring" where
  "innerText s = concat (map cell_text (el s))"

text \<open>\<^verbatim>\<open>text[i] || ''\<close>.\<close>

definition char_at :: "ustring \<Rightarrow> nat \<Rightarrow> ustring" where
  "char_at t i = (if i < length t then [t ! i] else [])"

definition randomChar :: "nat \<Rightarrow> nat" where
  "randomChar r = chars ! (r mod length chars)"

text \<open>One round of the loop of \<^verbatim>\<open>update\<close>: the item as it is left in the queue, the
  cell appended to the output, and whether the item counted as complete.\<close>

definition update_item :: "nat \<Rightarrow> draws \<Rightarrow> nat \<Rightarrow> qitem \<Rightarrow> qitem \<times> cell \<times> bool" where
  "update_item fr d i q =
     (if fr \<ge> q_end q then (q, Plain (q_to q), True)
      else if fr \<ge> q_start q then
        (let c = (case q_char q of
                    None \<Rightarrow> randomChar (u_glyph d i)
                  | Some c0 \<Rightarrow> if u_coin d i then randomChar (u_glyph d i) else c0)
         in (q \<lparr> q_char := Some c \<rparr>, Glitching c, False))
      else (q, Plain (q_from q), False))"

definition requestAnimationFrame :: "scramble \<Rightarrow> scramble" where
  "requestAnimationFrame s =
     s \<lparr> frameRequest := Some (next_id s), pending := pending s @ [next_id s],
         next_id := next_id s + 1 \<rparr>"

definition cancelAnimationFrame :: "scramble \<Rightarrow> scramble" where
  "cancelAnimationFrame s =
     (case frameRequest s of
        None \<Rightarrow> s
      | Some k \<Rightarrow> s \<lparr> pending := removeAll k (pending s) \<rparr>)"

definition update :: "scramble \<Rightarrow> draws \<Rightarrow> scramble" where
  "update s d =
     (let rs = map (\<lambda>(i, q). update_item (frame s) d i q) (enumerate 0 (queue s));
          complete = length (filter (\<lambda>r. snd (snd r)) rs);
          s1 = s \<lparr> queue := map fst rs, el := map (\<lambda>r. fst (snd r)) rs \<rparr>
      in if complete = length (queue s1)
         then s1 \<lparr> resolves := resolves s1 + 1, isAnimating := False \<rparr>
         else (requestAnimationFrame s1) \<lparr> frame := frame s1 + 1 \<rparr>)"

definition setText :: "scramble \<Rightarrow> ustring \<Rightarrow> draws \<Rightarrow> scramble" where
  "setText s newText d =
     (if isAnimating s then s
      else
        let oldText = innerText s;
            len = max (length oldText) (length newText);
            q = map (\<lambda>i. \<lparr> q_from = char_at oldText i, q_to = char_at newText i,
                            q_start = d_start d i mod 30,
                            q_end = d_start d i mod 30 + d_span d i mod 20,
                            q_char = None \<rparr>) [0..<len]
        in update ((cancelAnimationFrame (s \<lparr> queue := q \<rparr>)) \<lparr> frame := 0 \<rparr>) d)"

text \<open>The browser runs the oldest pending animation frame, whose callback is \<^verbatim>\<open>update\<close>.\<close>

definition animation_frame :: "scramble \<Rightarrow> draws \<Rightarrow> scramble" where
  "animation_frame s d =
     (case pending s of
        [] \<Rightarrow> s
      | k # ks \<Rightarrow> update (s \<lparr> pending := ks \<rparr>) d)"

subsection \<open>The hook\<close>

text \<open>
  \<^verbatim>\<open>useScramble\<close> for one element. \<open>element\<close> is the content of the element, which all
  scramblers made for it write. \<open>elRef\<close> says that \<^verbatim>\<open>elRef.current\<close> is set.
  \<open>scramblers\<close> holds the \<^verbatim>\<open>TextScramble\<close> objects made for the element, the newest
  first: the first is \<^verbatim>\<open>scramblerRef.current\<close>, the others were replaced by a later run
  of the effect and keep the animation frames they requested. \<open>timeouts\<close> holds the texts
  of the pending \<^verbatim>\<open>setTimeout\<close> callbacks of \<^verbatim>\<open>startAnimation\<close>, oldest first.
\<close>

record hook =
  element :: "cell list"
  elRef :: bool
  scramblers :: "scramble list"
  isVisibleRef :: bool
  timeouts :: "ustring list"

text \<open>The hook at the first render of an element with the content \<open>e\<close>.\<close>

definition useScramble :: "cell list \<Rightarrow> hook" where
  "useScramble e =
     \<lparr> element = e, elRef = True, scramblers = [], isVisibleRef = False, timeouts = [] \<rparr>"

text \<open>A method call on the scrambler at position \<open>i\<close>, which reads and writes the element.\<close>

definition on_scrambler :: "(scramble \<Rightarrow> scramble) \<Rightarrow> nat \<Rightarrow> hook \<Rightarrow> hook" where
  "on_scrambler f i h =
     (if i < length (scramblers h)
      then (let s = f ((scramblers h ! i) \<lparr> el := element h \<rparr>)
            in h \<lparr> scramblers := (scramblers h)[i := s], element := el s \<rparr>)
      else h)"

text \<open>The body of the effect: a new scrambler for the element (and a new observer).\<close>

definition effect :: "hook \<Rightarrow> hook" where
  "effect h =
     (if \<not> elRef h then h
      else h \<lparr> scramblers := TextScramble (element h) # scramblers h \<rparr>)"

text \<open>The cleanup of the effect: \<^verbatim>\<open>scramblerRef.current.isAnimating = false\<close>.\<close>

definition cleanup :: "hook \<Rightarrow> hook" where
  "cleanup h =
     (case scramblers h of
        [] \<Rightarrow> h
      | s # ss \<Rightarrow> h \<lparr> scramblers := s \<lparr> isAnimating := False \<rparr> # ss \<rparr>)"

definition startAnimation :: "ustring \<Rightarrow> hook \<Rightarrow> hook" where
  "startAnimation t h =
     (if scramblers h = [] \<or> isVisibleRef h then h
      else h \<lparr> isVisibleRef := True,
               element := (if elRef h then [Plain t] else element h),
               timeouts := timeouts h @ [t] \<rparr>)"

text \<open>The observer reports the element as intersecting; \<open>t\<close> is the text of the render
  whose callback the observer holds.\<close>

definition observerCallback :: "ustring \<Rightarrow> hook \<Rightarrow> hook" where
  "observerCallback t h = (if \<not> isVisibleRef h then startAnimation t h else h)"

text \<open>The oldest pending timeout of \<^verbatim>\<open>startAnimation\<close> fires.\<close>

definition timeout_fires :: "draws \<Rightarrow> hook \<Rightarrow> hook" where
  "timeout_fires d h =
     (case timeouts h of
        [] \<Rightarrow> h
      | t # ts \<Rightarrow>
          (let h1 = h \<lparr> timeouts := ts \<rparr>
           in if scramblers h1 \<noteq> [] \<and> elRef h1
              then on_scrambler (\<lambda>s. setText s t d) 0 h1
              else h1))"

text \<open>
  What can happen to the hook: the effect runs (at mount, and again when text or delay
  change), its cleanup runs, the element is unmounted (React clears the ref), the observer
  reports an intersection, the timeout fires, the browser runs an animation frame of the
  scrambler at a position.
\<close>

datatype event =
    Effect | Cleanup | Unmount | Intersect ustring | Timeout draws | Frame nat draws

fun step :: "event \<Rightarrow> hook \<Rightarrow> hook" where
  "step Effect h = effect h"
| "step Cleanup h = cleanup h"
| "step Unmount h = h \<lparr> elRef := False \<rparr>"
| "step (Intersect t) h = observerCallback t h"
| "step (Timeout d) h = timeout_fires d h"
| "step (Frame i d) h = on_scrambler (\<lambda>s. animation_frame s d) i h"

definition run :: "event list \<Rightarrow> hook \<Rightarrow> hook" where
  "run es h = foldl (\<lambda>h e. step e h) h es"

text \<open>The number of animation frames pending for the element.\<close>

definition frames_pending :: "hook \<Rightarrow> nat" where
  "frames_pending h = sum_list (map (\<lambda>s. length (pending s)) (scramblers h))"

section \<open>Example inputs\<close>

text \<open>A bundle, and a CMS whose sections request is answered with the status 500.\<close>

definition ex_bundle :: bootstrap where
  "ex_bundle =
     \<lparr> landingSlides = Some [''/images/a.jpg''], releases = Some [], liveProjects = Some [],
       liveDetailMap = Some [], bioSections = Some [], contactLinks = Some [] \<rparr>"

definition ex_cms_down :: cms where
  "ex_cms_down =
     \<lparr> sections_response = Status 500, posts_response = (\<lambda>i. Answer NoPosts),
       request_url = (\<lambda>i. []) \<rparr>"

text \<open>An empty store that refuses writes (a storage without quota), and one that
  accepts them.\<close>

definition ex_full_store :: storage where
  "ex_full_store = \<lparr> items = Map.empty, quota_exceeded = True \<rparr>"

definition ex_empty_store :: storage where
  "ex_empty_store = \<lparr> items = Map.empty, quota_exceeded = False \<rparr>"

text \<open>The store after the bundle was cached at clock \<open>t\<close>.\<close>

definition ex_store :: "int \<Rightarrow> storage" where
  "ex_store t = setCached ex_empty_store t (BOOTSTRAP_CACHE_KEY []) (js_of_bootstrap ex_bundle)"

text \<open>A value that JSON represents unchanged.\<close>

definition ex_json :: jsval where
  "ex_json = JObj [(''a'', JArr [JNum 1, JStr ''x'', JNull]), (''b'', JBool True)]"

text \<open>Posts: a link block, an image block, and posts built from them.\<close>

definition ex_link :: block where
  "ex_link = \<lparr> b_type = Str ''link'', b_content = Str ''https://label.example/ep'', b_images = None \<rparr>"

definition ex_image :: block where
  "ex_image = \<lparr> b_type = Str ''image'', b_content = Str ''/images/ep.jpg'', b_images = None \<rparr>"

definition ex_post :: "string \<Rightarrow> string \<Rightarrow> int option \<Rightarrow> block list \<Rightarrow> post" where
  "ex_post slug title ord bs =
     \<lparr> p_slug = Str slug, p_title = Str title, p_order = ord, p_blocks = Some bs \<rparr>"

text \<open>Release posts with orders 2, none and 0.\<close>

definition ex_tie_posts :: "post list" where
  "ex_tie_posts =
     [ex_post ''a'' ''A'' (Some 2) [ex_link], ex_post ''b'' ''B'' None [ex_link],
      ex_post ''c'' ''C'' (Some 0) [ex_link]]"

text \<open>A release post with a link block and no image block, and one the other way round.\<close>

definition ex_release_no_image :: post where
  "ex_release_no_image = ex_post ''ep'' ''EP'' None [ex_link]"

definition ex_release_no_link :: post where
  "ex_release_no_link = ex_post ''ep'' ''EP'' None [ex_image]"

text \<open>Live posts: one whose slug is the empty string, two that share a slug, one
  without a title.\<close>

definition ex_live_unslugged :: post where
  "ex_live_unslugged = ex_post [] ''Untitled'' None []"

definition ex_live_first :: post where
  "ex_live_first = ex_post ''show'' ''First'' None []"

definition ex_live_second :: post where
  "ex_live_second = ex_post ''show'' ''Second'' None []"

definition ex_live_untitled :: post where
  "ex_live_untitled =
     \<lparr> p_slug = Str ''show'', p_title = Undefined, p_order = None, p_blocks = Some [] \<rparr>"

text \<open>Sections answers: the five required sections; the same without \<^verbatim>\<open>bio\<close>; the
  same with the identifier 0 for \<^verbatim>\<open>landing\<close>; an answer that is not an array.\<close>

definition ex_sections :: "cms_section list" where
  "ex_sections =
     [\<lparr> s_id = Some 1, s_slug = Str ''landing'' \<rparr>, \<lparr> s_id = Some 2, s_slug = Str ''releases'' \<rparr>,
      \<lparr> s_id = Some 3, s_slug = Str ''live'' \<rparr>, \<lparr> s_id = Some 4, s_slug = Str ''bio'' \<rparr>,
      \<lparr> s_id = Some 5, s_slug = Str ''contact'' \<rparr>]"

definition ex_cms_ok :: cms where
  "ex_cms_ok =
     \<lparr> sections_response = Answer (Some ex_sections),
       posts_response =
         (\<lambda>i. if i = Some 2 then Answer (Posts (map Some ex_tie_posts)) else Answer NoPosts),
       request_url = (\<lambda>i. []) \<rparr>"

definition ex_sections_no_bio :: "cms_section list" where
  "ex_sections_no_bio =
     [\<lparr> s_id = Some 1, s_slug = Str ''landing'' \<rparr>, \<lparr> s_id = Some 2, s_slug = Str ''releases'' \<rparr>,
      \<lparr> s_id = Some 3, s_slug = Str ''live'' \<rparr>, \<lparr> s_id = Some 5, s_slug = Str ''contact'' \<rparr>]"

definition ex_cms_no_bio :: cms where
  "ex_cms_no_bio =
     \<lparr> sections_response = Answer (Some ex_sections_no_bio),
       posts_response = (\<lambda>i. Answer NoPosts), request_url = (\<lambda>i. []) \<rparr>"

definition ex_sections_zero_id :: "cms_section list" where
  "ex_sections_zero_id =
     [\<lparr> s_id = Some 0, s_slug = Str ''landing'' \<rparr>, \<lparr> s_id = Some 2, s_slug = Str ''releases'' \<rparr>,
      \<lparr> s_id = Some 3, s_slug = Str ''live'' \<rparr>, \<lparr> s_id = Some 4, s_slug = Str ''bio'' \<rparr>,
      \<lparr> s_id = Some 5, s_slug = Str ''contact'' \<rparr>]"

definition ex_cms_zero_id :: cms where
  "ex_cms_zero_id =
     \<lparr> sections_response = Answer (Some ex_sections_zero_id),
       posts_response = (\<lambda>i. Answer NoPosts), request_url = (\<lambda>i. []) \<rparr>"

definition ex_cms_not_array :: cms where
  "ex_cms_not_array =
     \<lparr> sections_response = Answer None, posts_response = (\<lambda>i. Answer NoPosts),
       request_url = (\<lambda>i. []) \<rparr>"

text \<open>A row with the given source and type, without a video title.\<close>

definition ex_row :: "string \<Rightarrow> jstr \<Rightarrow> row" where
  "ex_row src ty =
     \<lparr> row_video_src = Str src, row_video_type = ty, row_video_title = Undefined,
       row_title = Str ''Show'' \<rparr>"

text \<open>A slider of three images with the given interval, mounted at clock 10000, on which
  \<^verbatim>\<open>next()\<close> is called at once and \<^verbatim>\<open>prev()\<close> at clock 12000.\<close>

definition ex_two_navigations :: "nat \<Rightarrow> slider" where
  "ex_two_navigations ms =
     goPrev (run_until 12000 (goNext (mounted [''a.jpg'', ''b.jpg'', ''c.jpg''] ms 10000)))"

text \<open>Random draws that give every character the start \<open>a\<close> and the span \<open>b\<close>; a
  scrambler alone, on the text \<^verbatim>\<open>ab\<close> (code units 97 and 98), after \<^verbatim>\<open>setText\<close> and
  two animation frames; and the hook of an element with that text after the effect, an
  intersection, the timeout and two animation frames.\<close>

definition ex_draws :: "nat \<Rightarrow> nat \<Rightarrow> draws" where
  "ex_draws a b =
     \<lparr> d_start = (\<lambda>i. a), d_span = (\<lambda>i. b), u_coin = (\<lambda>i. False), u_glyph = (\<lambda>i. i) \<rparr>"

definition ex_in_flight :: scramble where
  "ex_in_flight =
     animation_frame
       (animation_frame (setText (TextScramble [Plain [97, 98]]) [97, 98] (ex_draws 2 5))
          (ex_draws 2 5))
       (ex_draws 2 5)"

definition ex_hook :: hook where
  "ex_hook =
     run [Effect, Intersect [97, 98], Timeout (ex_draws 2 5), Frame 0 (ex_draws 2 5),
          Frame 0 (ex_draws 2 5)]
       (useScramble [Plain [97, 98]])"

section \<open>Cache store: properties\<close>

text \<open>
  C6, as amended. What \<^verbatim>\<open>set(k, d)\<close> stores is the JSON text of \<open>d\<close>, so what the
  reads return is the copy of \<open>d\<close> through JSON. When the storage accepts the write and
  \<^verbatim>\<open>JSON.stringify\<close> does not throw, \<^verbatim>\<open>set(k, d)\<close> at clock \<open>t\<close> followed by
  \<^verbatim>\<open>getFresh(k)\<close> at clock \<open>t'\<close> returns that copy if at most 60000 ms have elapsed;
  if more than 60000 ms have elapsed, \<^verbatim>\<open>getFresh(k)\<close> returns null and \<^verbatim>\<open>getAny(k)\<close>
  returns the copy, or null when the copy is undefined. So for every value \<open>d\<close> that JSON
  represents unchanged (its copy is \<open>d\<close> again, and \<open>d\<close> is not undefined) the reads
  return \<open>d\<close>. When the storage refuses the write (\<^verbatim>\<open>setItem\<close> throws, as it does when
  the quota is exceeded) or \<^verbatim>\<open>JSON.stringify\<close> throws, the error is swallowed and the
  store is unchanged.
\<close>

theorem cache_set_then_get:
  "(\<not> quota_exceeded store \<and> \<not> json_throws d \<longrightarrow>
      (t' - t \<le> 60000 \<longrightarrow> getCachedFresh (setCached store t k d) t' k = json_copy d)
    \<and> (t' - t > 60000 \<longrightarrow> getCachedFresh (setCached store t k d) t' k = JNull
                           \<and> getCachedAny (setCached store t k d) k = nullish_else (json_copy d) JNull))
   \<and> (\<not> quota_exceeded store \<and> \<not> json_throws d \<and> json_copy d = d \<and> d \<noteq> JUndefined \<longrightarrow>
      (t' - t \<le> 60000 \<longrightarrow> getCachedFresh (setCached store t k d) t' k = d)
    \<and> (t' - t > 60000 \<longrightarrow> getCachedFresh (setCached store t k d) t' k = JNull
                           \<and> getCachedAny (setCached store t k d) k = d))
   \<and> (quota_exceeded store \<or> json_throws d \<longrightarrow> setCached store t k d = store)"
proof -
  have e: "getCachedEntry (setCached store t k d) k
            = Some \<lparr> data = json_copy d, timestamp = JNum t \<rparr>"
    if "\<not> quota_exceeded store" "\<not> json_throws d"
    using that
    by (cases "json_copy d = JUndefined")
       (simp_all add: setCached_def getCachedEntry_def get_prop_def is_number_def Let_def)
  have 1: "getCachedFresh (setCached store t k d) t' k = json_copy d"
    if "\<not> quota_exceeded store" "\<not> json_throws d" "t' - t \<le> 60000"
    using that by (simp add: getCachedFresh_def e expired_def CACHE_TTL_def)
  have 2: "getCachedFresh (setCached store t k d) t' k = JNull"
    if "\<not> quota_exceeded store" "\<not> json_throws d" "t' - t > 60000"
    using that by (simp add: getCachedFresh_def e expired_def CACHE_TTL_def)
  have 3: "getCachedAny (setCached store t k d) k = nullish_else (json_copy d) JNull"
    if "\<not> quota_exceeded store" "\<not> json_throws d"
    using that by (simp add: getCachedAny_def e)
  have 4: "nullish_else d JNull = d" if "d \<noteq> JUndefined"
    using that by (simp add: nullish_else_def)
  have 5: "setCached store t k d = store" if "quota_exceeded store \<or> json_throws d"
    using that by (auto simp: setCached_def Let_def)
  from 1 2 3 4 5 show ?thesis by metis
qed

lemma ex_json_safe: "\<not> json_throws ex_json \<and> json_copy ex_json = ex_json"
  by (simp add: ex_json_def)

theorem cache_set_then_get_witness:
  "getCachedFresh (setCached ex_empty_store 1000 ''k'' ex_json) 61000 ''k'' = ex_json
   \<and> getCachedFresh (setCached ex_empty_store 1000 ''k'' ex_json) 61001 ''k'' = JNull
   \<and> getCachedAny (setCached ex_empty_store 1000 ''k'' ex_json) ''k'' = ex_json
   \<and> getCachedFresh (setCached ex_empty_store 1000 ''k'' (JDate ''2026-01-01T00:00:00.000Z'')) 1000 ''k''
       = JStr ''2026-01-01T00:00:00.000Z''
   \<and> setCached ex_empty_store 1000 ''k'' (JBigInt 7) = ex_empty_store
   \<and> setCached ex_full_store 1000 ''k'' ex_json = ex_full_store"
  using cache_set_then_get [of ex_empty_store ex_json 61000 1000 "''k''"]
        cache_set_then_get [of ex_empty_store ex_json 61001 1000 "''k''"]
        cache_set_then_get [of ex_empty_store "JDate ''2026-01-01T00:00:00.000Z''" 1000 1000 "''k''"]
        cache_set_then_get [of ex_empty_store "JBigInt 7" 1000 1000 "''k''"]
        cache_set_then_get [of ex_full_store ex_json 1000 1000 "''k''"]
        ex_json_safe
  by (simp add: ex_empty_store_def ex_full_store_def ex_json_def nullish_else_def)

text \<open>
  C6 as stated fails. On a storage that accepts the write, \<^verbatim>\<open>set(k, NaN)\<close> followed at
  once by \<^verbatim>\<open>getFresh(k)\<close> returns null, not \<^verbatim>\<open>NaN\<close>; and on a storage that refuses
  the write, \<^verbatim>\<open>set(k, 7)\<close> followed at once by \<^verbatim>\<open>getFresh(k)\<close> returns null, not 7.
\<close>

theorem cache_value_not_returned_counterexample:
  "\<not> quota_exceeded ex_empty_store
   \<and> getCachedFresh (setCached ex_empty_store 1000 ''k'' JNaN) 1000 ''k'' = JNull
   \<and> getCachedFresh (setCached ex_empty_store 1000 ''k'' JNaN) 1000 ''k'' \<noteq> JNaN
   \<and> getCachedFresh (setCached ex_full_store 1000 ''k'' (JNum 7)) 1000 ''k'' = JNull
   \<and> getCachedFresh (setCached ex_full_store 1000 ''k'' (JNum 7)) 1000 ''k'' \<noteq> JNum 7"
  by (simp add: getCachedFresh_def setCached_def getCachedEntry_def get_prop_def is_number_def
      expired_def CACHE_TTL_def ex_empty_store_def ex_full_store_def Let_def)

section \<open>Bootstrap orchestrator: properties\<close>

lemma ex_cms_down_rejects: "buildDataFromCms ex_cms_down = Inl (Error ''HTTP 500'')"
  by (simp add: buildDataFromCms_def ex_cms_down_def and_then_def fetchJson_def) code_simp

lemma ex_store_entry:
  "getCachedEntry (ex_store t) (BOOTSTRAP_CACHE_KEY [])
     = Some \<lparr> data = JObj [(''landingSlides'', JArr [JStr ''/images/a.jpg'']), (''releases'', JArr []),
                           (''liveProjects'', JArr []), (''liveDetailMap'', JObj []),
                           (''bioSections'', JArr []), (''contactLinks'', JArr [])],
              timestamp = JNum t \<rparr>"
  by (simp add: ex_store_def ex_empty_store_def ex_bundle_def setCached_def getCachedEntry_def
      js_of_bootstrap_def js_of_list_def get_prop_def is_number_def Let_def)

lemma ex_store_fresh:
  "getCachedFresh (ex_store 50000) 100000 (BOOTSTRAP_CACHE_KEY [])
     = JObj [(''landingSlides'', JArr [JStr ''/images/a.jpg'']), (''releases'', JArr []),
             (''liveProjects'', JArr []), (''liveDetailMap'', JObj []),
             (''bioSections'', JArr []), (''contactLinks'', JArr [])]"
  "getCachedFresh (ex_store 0) 100000 (BOOTSTRAP_CACHE_KEY []) = JNull"
  "getCachedFresh ex_empty_store 100000 (BOOTSTRAP_CACHE_KEY []) = JNull"
  by (simp_all add: getCachedFresh_def ex_store_entry expired_def CACHE_TTL_def)
     (simp add: getCachedEntry_def ex_empty_store_def)

text \<open>
  C1, as amended. When \<^verbatim>\<open>buildDataFromCms\<close> rejects, \<^verbatim>\<open>load\<close> leaves the store as it
  is and falls back to the cache entry under the bootstrap key only if that entry is fresh
  (at most 60000 ms old when \<^verbatim>\<open>load\<close> starts) and its data is truthy: then each of the
  six states holds the property of that name of the cached data, or the empty array (the
  empty object for the live detail map) when that property is falsy, and the loaded flag
  is true. With a stale entry or none, the six states keep their values and the loaded
  flag is false.
\<close>

theorem load_fetch_failure:
  assumes "buildDataFromCms c = Inl e"
  shows "fst (load site t c t' (store, st)) = store
    \<and> (js_truthy (getCachedFresh store t (BOOTSTRAP_CACHE_KEY site)) \<longrightarrow>
         st_landingSlides (snd (load site t c t' (store, st)))
           = or_else (get_prop (getCachedFresh store t (BOOTSTRAP_CACHE_KEY site)) ''landingSlides'') (JArr [])
       \<and> st_releases (snd (load site t c t' (store, st)))
           = or_else (get_prop (getCachedFresh store t (BOOTSTRAP_CACHE_KEY site)) ''releases'') (JArr [])
       \<and> st_liveProjects (snd (load site t c t' (store, st)))
           = or_else (get_prop (getCachedFresh store t (BOOTSTRAP_CACHE_KEY site)) ''liveProjects'') (JArr [])
       \<and> st_liveDetailMap (snd (load site t c t' (store, st)))
           = or_else (get_prop (getCachedFresh store t (BOOTSTRAP_CACHE_KEY site)) ''liveDetailMap'') (JObj [])
       \<and> st_bioSections (snd (load site t c t' (store, st)))
           = or_else (get_prop (getCachedFresh store t (BOOTSTRAP_CACHE_KEY site)) ''bioSections'') (JArr [])
       \<and> st_contactLinks (snd (load site t c t' (store, st)))
           = or_else (get_prop (getCachedFresh store t (BOOTSTRAP_CACHE_KEY site)) ''contactLinks'') (JArr [])
       \<and> dataLoaded (snd (load site t c t' (store, st))))
    \<and> (\<not> js_truthy (getCachedFresh store t (BOOTSTRAP_CACHE_KEY site)) \<longrightarrow>
         snd (load site t c t' (store, st)) = st \<lparr> dataLoaded := False \<rparr>)"
  using assms by (simp add: load_def populate_def Let_def)

theorem load_fetch_failure_witness:
  "buildDataFromCms ex_cms_down = Inl (Error ''HTTP 500'')
   \<and> st_landingSlides (snd (load [] 100000 ex_cms_down 100500 (ex_store 50000, initial_state)))
       = JArr [JStr ''/images/a.jpg'']
   \<and> st_releases (snd (load [] 100000 ex_cms_down 100500 (ex_store 50000, initial_state))) = JArr []
   \<and> st_liveProjects (snd (load [] 100000 ex_cms_down 100500 (ex_store 50000, initial_state))) = JArr []
   \<and> st_liveDetailMap (snd (load [] 100000 ex_cms_down 100500 (ex_store 50000, initial_state))) = JObj []
   \<and> st_bioSections (snd (load [] 100000 ex_cms_down 100500 (ex_store 50000, initial_state))) = JArr []
   \<and> st_contactLinks (snd (load [] 100000 ex_cms_down 100500 (ex_store 50000, initial_state))) = JArr []
   \<and> dataLoaded (snd (load [] 100000 ex_cms_down 100500 (ex_store 50000, initial_state)))
   \<and> snd (load [] 100000 ex_cms_down 100500 (ex_empty_store, populate (js_of_bootstrap ex_bundle) initial_state))
       = (populate (js_of_bootstrap ex_bundle) initial_state) \<lparr> dataLoaded := False \<rparr>"
  using load_fetch_failure [OF ex_cms_down_rejects, of "[]" 100000 100500 "ex_store 50000" initial_state]
    load_fetch_failure [OF ex_cms_down_rejects, of "[]" 100000 100500 ex_empty_store
      "populate (js_of_bootstrap ex_bundle) initial_state"]
  by (simp add: ex_cms_down_rejects ex_store_fresh get_prop_def or_else_def)

text \<open>
  C1 as stated fails: with an entry under the bootstrap key that is 100000 ms old and a
  fetch that fails, \<^verbatim>\<open>getCachedAny\<close> would return the entry with its landing slide,
  but \<^verbatim>\<open>load\<close> leaves the six states empty and the loaded flag false.
\<close>

theorem load_stale_cache_counterexample:
  "buildDataFromCms ex_cms_down = Inl (Error ''HTTP 500'')
   \<and> get_prop (getCachedAny (ex_store 0) (BOOTSTRAP_CACHE_KEY [])) ''landingSlides''
       = JArr [JStr ''/images/a.jpg'']
   \<and> snd (load [] 100000 ex_cms_down 100500 (ex_store 0, initial_state)) = initial_state
   \<and> \<not> dataLoaded (snd (load [] 100000 ex_cms_down 100500 (ex_store 0, initial_state)))
   \<and> st_landingSlides (snd (load [] 100000 ex_cms_down 100500 (ex_store 0, initial_state))) = JArr []"
  by (simp add: ex_cms_down_rejects load_def ex_store_fresh getCachedAny_def ex_store_entry
      initial_state_def nullish_else_def get_prop_def)

section \<open>View-model builder: properties\<close>

subsection \<open>The live detail map\<close>

lemma dom_set_prop: "dom (set_prop m k v) = (if k = ''__proto__'' then dom m else insert k (dom m))"
  by (simp add: set_prop_def)

lemma dom_live_fold:
  "dom (foldl live_detail_step m ps) = dom m \<union> ((\<lambda>p. prop_key (p_slug p)) ` set ps - {''__proto__''})"
  by (induction ps arbitrary: m) (auto simp: live_detail_step_def dom_set_prop)

lemma live_fold_absent:
  "\<forall>q\<in>set ys. prop_key (p_slug q) \<noteq> k \<Longrightarrow> foldl live_detail_step m ys k = m k"
  by (induction ys arbitrary: m) (auto simp: live_detail_step_def set_prop_def)

lemma live_fold_last:
  assumes "\<forall>q\<in>set ys. prop_key (p_slug q) \<noteq> prop_key (p_slug p)"
    and "prop_key (p_slug p) \<noteq> ''__proto__''"
  shows "foldl live_detail_step m (xs @ p # ys) (prop_key (p_slug p)) = Some (live_detail_of p)"
  using assms by (simp add: live_fold_absent) (simp add: live_detail_step_def set_prop_def)

lemma live_fold_entry:
  "foldl live_detail_step m ps k = Some d \<Longrightarrow>
     m k = Some d \<or> (\<exists>p\<in>set ps. prop_key (p_slug p) = k \<and> d = live_detail_of p)"
proof (induction ps arbitrary: m)
  case Nil
  then show ?case by simp
next
  case (Cons a ps)
  from Cons.prems have "foldl live_detail_step (live_detail_step m a) ps k = Some d" by simp
  from Cons.IH [OF this] show ?case
    by (auto simp: live_detail_step_def set_prop_def split: if_splits)
qed

lemma title_live_detail: "d_title (live_detail_of p) = js_or (p_title p) (p_slug p)"
  by (simp add: live_detail_of_def Let_def)

text \<open>The bundle holds the map as the list of its properties; both forms agree.\<close>

lemma map_of_live_detail_property:
  "map_of (live_detail_property acc p) = live_detail_step (map_of acc) p"
  by (simp add: live_detail_property_def live_detail_step_def set_prop_def update_conv')

lemma liveDetailMap_properties_map:
  "map_of (liveDetailMap_properties ps) = build_liveDetailMap ps"
proof -
  have "map_of (foldl live_detail_property acc ps) = foldl live_detail_step (map_of acc) ps" for acc
    by (induction ps arbitrary: acc) (simp_all add: map_of_live_detail_property)
  from this [of "[]"] show ?thesis
    by (simp add: liveDetailMap_properties_def build_liveDetailMap_def)
qed

text \<open>
  C3, as amended. The key set of the live detail map is the set of the property keys of
  the slugs of all live posts: the empty string when a post has an empty slug,
  \<^verbatim>\<open>undefined\<close> or \<^verbatim>\<open>null\<close> when a post has no slug; only the key \<^verbatim>\<open>__proto__\<close> is
  never stored. When several posts share a key the entry holds the data of the last one.
\<close>

theorem liveDetailMap_keys_last_write:
  "dom (build_liveDetailMap ps) = (\<lambda>p. prop_key (p_slug p)) ` set ps - {''__proto__''}
   \<and> ((\<forall>q\<in>set ys. prop_key (p_slug q) \<noteq> prop_key (p_slug p)) \<and> prop_key (p_slug p) \<noteq> ''__proto__''
        \<longrightarrow> build_liveDetailMap (xs @ p # ys) (prop_key (p_slug p)) = Some (live_detail_of p))"
proof (intro conjI impI)
  show "dom (build_liveDetailMap ps) = (\<lambda>p. prop_key (p_slug p)) ` set ps - {''__proto__''}"
    by (simp add: build_liveDetailMap_def dom_live_fold)
next
  assume "(\<forall>q\<in>set ys. prop_key (p_slug q) \<noteq> prop_key (p_slug p)) \<and> prop_key (p_slug p) \<noteq> ''__proto__''"
  then show "build_liveDetailMap (xs @ p # ys) (prop_key (p_slug p)) = Some (live_detail_of p)"
    unfolding build_liveDetailMap_def by (intro live_fold_last) simp_all
qed

theorem liveDetailMap_keys_last_write_witness:
  "dom (build_liveDetailMap [ex_live_first, ex_live_second]) = {''show''}
   \<and> build_liveDetailMap [ex_live_first, ex_live_second] ''show'' = Some (live_detail_of ex_live_second)
   \<and> d_title (live_detail_of ex_live_second) = Str ''Second''"
  using liveDetailMap_keys_last_write
    [of "[ex_live_first, ex_live_second]" "[]" ex_live_second "[ex_live_first]"]
  by (simp add: ex_live_first_def ex_live_second_def ex_post_def title_live_detail js_or_def)

text \<open>
  C3 as stated fails: a live post whose slug is the empty string puts the key \<^verbatim>\<open>''\<close>
  into the map, so the key set is not the set of the non-empty slugs.
\<close>

theorem liveDetailMap_empty_slug_counterexample:
  "p_slug ex_live_unslugged = Str []
   \<and> build_liveDetailMap [ex_live_unslugged] [] = Some (live_detail_of ex_live_unslugged)
   \<and> dom (build_liveDetailMap [ex_live_unslugged]) = {[]}"
  by (simp add: build_liveDetailMap_def dom_set_prop live_detail_step_def set_prop_def
      ex_live_unslugged_def ex_post_def)

text \<open>
  C10. The title of the entry that a live post writes is the title of the post when that
  is non-empty and the slug of the post otherwise, so it is non-empty whenever the slug
  is; and every entry of the map is the entry written by one of the posts under its key.
\<close>

theorem live_detail_title_fallback:
  "d_title (live_detail_of p) = (if truthy (p_title p) then p_title p else p_slug p)
   \<and> (truthy (p_slug p) \<longrightarrow> truthy (d_title (live_detail_of p)))
   \<and> (build_liveDetailMap ps k = Some d \<longrightarrow>
        (\<exists>q\<in>set ps. prop_key (p_slug q) = k \<and> d = live_detail_of q
            \<and> d_title d = (if truthy (p_title q) then p_title q else p_slug q)))"
proof -
  have 1: "d_title (live_detail_of p) = (if truthy (p_title p) then p_title p else p_slug p)" for p
    by (simp add: title_live_detail js_or_def)
  have 2: "truthy (p_slug p) \<longrightarrow> truthy (d_title (live_detail_of p))"
    by (simp add: 1)
  have 3: "\<exists>q\<in>set ps. prop_key (p_slug q) = k \<and> d = live_detail_of q
            \<and> d_title d = (if truthy (p_title q) then p_title q else p_slug q)"
    if "build_liveDetailMap ps k = Some d"
  proof -
    from that live_fold_entry [of Map.empty ps k d]
    obtain q where "q \<in> set ps" "prop_key (p_slug q) = k" "d = live_detail_of q"
      unfolding build_liveDetailMap_def by auto
    then show ?thesis using 1 [of q] by blast
  qed
  from 1 2 3 show ?thesis by blast
qed

theorem live_detail_title_fallback_witness:
  "build_liveDetailMap [ex_live_untitled] ''show'' = Some (live_detail_of ex_live_untitled)
   \<and> truthy (p_slug ex_live_untitled)
   \<and> d_title (live_detail_of ex_live_untitled) = Str ''show''
   \<and> truthy (d_title (live_detail_of ex_live_untitled))"
  using live_detail_title_fallback
    [of ex_live_untitled "[ex_live_untitled]" "''show''" "live_detail_of ex_live_untitled"]
  by (simp add: build_liveDetailMap_def live_detail_step_def set_prop_def ex_live_untitled_def)

subsection \<open>Filtering\<close>

lemma no_block_no_content: "firstBlockOfType bs ty = None \<Longrightarrow> first_content bs ty = []"
  by (simp add: first_content_def)

text \<open>
  C4, as amended. A release post lacking a link block is excluded from the releases view
  model, and a contact post lacking a link block is excluded from the contactLinks view
  model: the view model is the one built without the post. A release post lacking only
  an image block is kept, with an empty image, when it has link content and a title.
\<close>

theorem link_block_required:
  "(firstBlockOfType (p_blocks p) ''link'' = None \<longrightarrow>
      build_releases (xs @ p # ys) = build_releases (xs @ ys)
    \<and> build_contactLinks (xs @ p # ys) = build_contactLinks (xs @ ys))
   \<and> (firstBlockOfType (p_blocks p) ''image'' = None \<and> first_content (p_blocks p) ''link'' \<noteq> []
        \<and> truthy (p_title p) \<longrightarrow>
      release_of p \<in> set (build_releases (xs @ p # ys)) \<and> r_image (release_of p) = [])"
  by (auto simp: build_releases_def build_contactLinks_def release_of_def contact_link_of_def
      no_block_no_content Let_def)

theorem link_block_required_witness:
  "firstBlockOfType (p_blocks ex_release_no_link) ''link'' = None
   \<and> build_releases [ex_release_no_link] = []
   \<and> build_contactLinks [ex_release_no_link] = []
   \<and> release_of ex_release_no_image \<in> set (build_releases [ex_release_no_image])"
  using link_block_required [of ex_release_no_link "[]" "[]"]
        link_block_required [of ex_release_no_image "[]" "[]"]
  by (simp add: ex_release_no_link_def ex_release_no_image_def ex_post_def ex_image_def ex_link_def
      firstBlockOfType_def first_content_def build_releases_def build_contactLinks_def)

text \<open>
  C4 as stated fails: a release post with a title and a link block but no image block is
  not excluded from the releases view model.
\<close>

theorem release_without_image_counterexample:
  "firstBlockOfType (p_blocks ex_release_no_image) ''image'' = None
   \<and> build_releases [ex_release_no_image] =
       [\<lparr> r_href = ''https://label.example/ep'', r_title = Str ''EP'', r_image = [], r_order = 0 \<rparr>]"
  by (simp add: ex_release_no_image_def ex_post_def ex_link_def firstBlockOfType_def
      first_content_def build_releases_def release_of_def)

subsection \<open>Ordering\<close>

lemma and_then_Inr: "and_then r f = Inr y \<longleftrightarrow> (\<exists>x. r = Inr x \<and> f x = Inr y)"
  by (cases r) (simp_all add: and_then_def)

lemma buildDataFromCms_Inr:
  assumes "buildDataFromCms c = Inr b"
  shows "\<exists>landingPosts releasePosts livePosts bioPosts contactPosts.
     b = \<lparr> landingSlides = Some (build_landingSlides landingPosts),
           releases = Some (build_releases releasePosts),
           liveProjects = Some (build_liveProjects livePosts),
           liveDetailMap = Some (liveDetailMap_properties livePosts),
           bioSections = Some (build_bioSections bioPosts),
           contactLinks = Some (build_contactLinks contactPosts) \<rparr>"
  using assms unfolding buildDataFromCms_def and_then_Inr by blast

lemma buildBootstrap_Inr:
  assumes "buildBootstrap c = Inr b"
  shows "\<exists>landingPosts releasePosts livePosts bioPosts contactPosts.
     b = \<lparr> landingSlides = Some (build_landingSlides landingPosts),
           releases = Some (build_releases releasePosts),
           liveProjects = Some (build_liveProjects livePosts),
           liveDetailMap = Some (liveDetailMap_properties livePosts),
           bioSections = Some (build_bioSections bioPosts),
           contactLinks = Some (build_contactLinks contactPosts) \<rparr>"
  using assms unfolding buildBootstrap_def and_then_Inr Let_def by blast

text \<open>
  The live detail map of a returned bundle is the reduction over the live posts, and the
  list that holds it names no property twice.
\<close>

lemma bundle_liveDetailMap:
  assumes "buildDataFromCms c = Inr b \<or> buildBootstrap c = Inr b"
  shows "\<exists>livePosts. map_option map_of (liveDetailMap b) = Some (build_liveDetailMap livePosts)"
proof -
  from assms buildDataFromCms_Inr [of c b] buildBootstrap_Inr [of c b]
  obtain lp rp vp bp cp where
    "b = \<lparr> landingSlides = Some (build_landingSlides lp),
         releases = Some (build_releases rp),
         liveProjects = Some (build_liveProjects vp),
         liveDetailMap = Some (liveDetailMap_properties vp),
         bioSections = Some (build_bioSections bp),
         contactLinks = Some (build_contactLinks cp) \<rparr>"
    by blast
  then show ?thesis by (auto simp: liveDetailMap_properties_map)
qed

lemma liveDetailMap_properties_distinct: "distinct (map fst (liveDetailMap_properties ps))"
proof -
  have "distinct (map fst acc) \<Longrightarrow> distinct (map fst (foldl live_detail_property acc ps))" for acc
    by (induction ps arbitrary: acc) (simp_all add: live_detail_property_def distinct_update)
  from this [of "[]"] show ?thesis by (simp add: liveDetailMap_properties_def)
qed

lemma bySlug_of_ex_sections:
  "bySlug_of ex_sections =
     [''landing'' \<mapsto> \<lparr> s_id = Some 1, s_slug = Str ''landing'' \<rparr>,
      ''releases'' \<mapsto> \<lparr> s_id = Some 2, s_slug = Str ''releases'' \<rparr>,
      ''live'' \<mapsto> \<lparr> s_id = Some 3, s_slug = Str ''live'' \<rparr>,
      ''bio'' \<mapsto> \<lparr> s_id = Some 4, s_slug = Str ''bio'' \<rparr>,
      ''contact'' \<mapsto> \<lparr> s_id = Some 5, s_slug = Str ''contact'' \<rparr>]"
  by (simp add: bySlug_of_def ex_sections_def bySlug_step_def set_prop_def)

lemma build_releases_ex_tie_posts:
  "map r_title (build_releases ex_tie_posts) = [Str ''B'', Str ''C'', Str ''A'']
   \<and> map r_order (build_releases ex_tie_posts) = [0, 0, 2]"
  by (simp add: build_releases_def ex_tie_posts_def ex_post_def release_of_def first_content_def
      firstBlockOfType_def ex_link_def)

lemma each_post_map_Some: "each_post (map Some ps) = Inr ps"
  by (induction ps) simp_all

lemma buildDataFromCms_ex_cms_ok:
  "\<exists>b. buildDataFromCms ex_cms_ok = Inr b \<and> releases b = Some (build_releases ex_tie_posts)"
  by (simp add: buildDataFromCms_def ex_cms_ok_def and_then_def bySlug_of_ex_sections
      requireSection_def fetchPosts_def fetchJson_def mapped_posts_def each_post_map_Some)

lemma buildBootstrap_ex_cms_ok:
  "\<exists>b. buildBootstrap ex_cms_ok = Inr b \<and> releases b = Some (build_releases ex_tie_posts)"
  by (simp add: buildBootstrap_def ex_cms_ok_def and_then_def bySlug_of_ex_sections
      requireSectionId_def fetchPosts_script_def fetchJson_script_def each_post_map_Some)

text \<open>
  C7, as amended. The releases, liveProjects, bioSections and contactLinks view models
  are sorted ascending by their order field, not strictly: entries with equal order keys
  are adjacent and keep their relative input order (for every key \<open>k\<close>, the entries with
  order \<open>k\<close> are those of the filtered input, in the same order), and a missing order
  counts as 0. This holds for the transforms and so for every bundle that
  \<^verbatim>\<open>buildDataFromCms\<close> or the build script returns.
\<close>

theorem view_models_sorted_stable:
  "sorted (map r_order (build_releases ps))
   \<and> filter (\<lambda>r. r_order r = k) (build_releases ps)
       = filter (\<lambda>r. r_order r = k)
           (filter (\<lambda>r. r_href r \<noteq> [] \<and> truthy (r_title r)) (map release_of ps))
   \<and> sorted (map lc_order (build_liveProjects ps))
   \<and> filter (\<lambda>r. lc_order r = k) (build_liveProjects ps)
       = filter (\<lambda>r. lc_order r = k) (filter (\<lambda>r. truthy (lc_slug r)) (map live_card_of ps))
   \<and> sorted (map bio_order (build_bioSections ps))
   \<and> filter (\<lambda>r. bio_order r = k) (build_bioSections ps)
       = filter (\<lambda>r. bio_order r = k) (filter (\<lambda>s. truthy (bio_title s)) (map bio_section_of ps))
   \<and> sorted (map c_order (build_contactLinks ps))
   \<and> filter (\<lambda>r. c_order r = k) (build_contactLinks ps)
       = filter (\<lambda>r. c_order r = k)
           (filter (\<lambda>l. truthy (c_label l) \<and> c_href l \<noteq> []) (map contact_link_of ps))
   \<and> r_order (release_of p) = (case p_order p of None \<Rightarrow> 0 | Some n \<Rightarrow> n)
   \<and> lc_order (live_card_of p) = (case p_order p of None \<Rightarrow> 0 | Some n \<Rightarrow> n)
   \<and> bio_order (bio_section_of p) = (case p_order p of None \<Rightarrow> 0 | Some n \<Rightarrow> n)
   \<and> c_order (contact_link_of p) = (case p_order p of None \<Rightarrow> 0 | Some n \<Rightarrow> n)
   \<and> (buildDataFromCms c = Inr b \<or> buildBootstrap c = Inr b \<longrightarrow>
        sorted (map r_order (or_nil (releases b))) \<and> sorted (map lc_order (or_nil (liveProjects b)))
      \<and> sorted (map bio_order (or_nil (bioSections b))) \<and> sorted (map c_order (or_nil (contactLinks b))))"
proof -
  have tr: "sorted (map r_order (build_releases ps))" "sorted (map lc_order (build_liveProjects ps))"
    "sorted (map bio_order (build_bioSections ps))" "sorted (map c_order (build_contactLinks ps))" for ps
    by (simp_all add: build_releases_def build_liveProjects_def build_bioSections_def
        build_contactLinks_def)
  have st: "filter (\<lambda>r. r_order r = k) (build_releases ps)
       = filter (\<lambda>r. r_order r = k)
           (filter (\<lambda>r. r_href r \<noteq> [] \<and> truthy (r_title r)) (map release_of ps))"
    "filter (\<lambda>r. lc_order r = k) (build_liveProjects ps)
       = filter (\<lambda>r. lc_order r = k) (filter (\<lambda>r. truthy (lc_slug r)) (map live_card_of ps))"
    "filter (\<lambda>r. bio_order r = k) (build_bioSections ps)
       = filter (\<lambda>r. bio_order r = k) (filter (\<lambda>s. truthy (bio_title s)) (map bio_section_of ps))"
    "filter (\<lambda>r. c_order r = k) (build_contactLinks ps)
       = filter (\<lambda>r. c_order r = k)
           (filter (\<lambda>l. truthy (c_label l) \<and> c_href l \<noteq> []) (map contact_link_of ps))"
    unfolding build_releases_def build_liveProjects_def build_bioSections_def
      build_contactLinks_def by (rule sort_key_stable)+
  have od: "r_order (release_of p) = (case p_order p of None \<Rightarrow> 0 | Some n \<Rightarrow> n)"
    "lc_order (live_card_of p) = (case p_order p of None \<Rightarrow> 0 | Some n \<Rightarrow> n)"
    "bio_order (bio_section_of p) = (case p_order p of None \<Rightarrow> 0 | Some n \<Rightarrow> n)"
    "c_order (contact_link_of p) = (case p_order p of None \<Rightarrow> 0 | Some n \<Rightarrow> n)"
    by (cases "p_order p"; simp add: release_of_def live_card_of_def bio_section_of_def
        contact_link_of_def Let_def)+
  have bd: "sorted (map r_order (or_nil (releases b))) \<and> sorted (map lc_order (or_nil (liveProjects b)))
      \<and> sorted (map bio_order (or_nil (bioSections b))) \<and> sorted (map c_order (or_nil (contactLinks b)))"
    if "buildDataFromCms c = Inr b \<or> buildBootstrap c = Inr b"
  proof -
    from that buildDataFromCms_Inr [of c b] buildBootstrap_Inr [of c b]
    obtain lp rp vp bp cp where
      "b = \<lparr> landingSlides = Some (build_landingSlides lp),
           releases = Some (build_releases rp),
           liveProjects = Some (build_liveProjects vp),
           liveDetailMap = Some (liveDetailMap_properties vp),
           bioSections = Some (build_bioSections bp),
           contactLinks = Some (build_contactLinks cp) \<rparr>"
      by blast
    then show ?thesis by (simp add: tr)
  qed
  from tr [of ps] st od bd show ?thesis by blast
qed

theorem view_models_sorted_stable_witness:
  "map r_title (build_releases ex_tie_posts) = [Str ''B'', Str ''C'', Str ''A'']
   \<and> map r_order (build_releases ex_tie_posts) = [0, 0, 2]
   \<and> sorted (map r_order (build_releases ex_tie_posts))
   \<and> (\<exists>b. buildDataFromCms ex_cms_ok = Inr b \<and> sorted (map r_order (or_nil (releases b))))"
  using view_models_sorted_stable [of ex_tie_posts] build_releases_ex_tie_posts
    buildDataFromCms_ex_cms_ok
  by auto

text \<open>
  C7 as stated fails: two release posts with equal order keys (one missing, one 0) are
  both in the view model, which is then not strictly ascending.
\<close>

theorem equal_orders_counterexample:
  "map r_order (build_releases ex_tie_posts) = [0, 0, 2]
   \<and> \<not> sorted_wrt (<) (map r_order (build_releases ex_tie_posts))"
  by (simp add: build_releases_ex_tie_posts)

section \<open>Required sections: properties\<close>

lemma bySlug_fold_None:
  assumes "slug \<noteq> []" "slug \<noteq> ''__proto__''"
  shows "foldl bySlug_step m ss slug = None \<longleftrightarrow> m slug = None \<and> Str slug \<notin> s_slug ` set ss"
proof (induction ss arbitrary: m)
  case Nil
  show ?case by simp
next
  case (Cons a ss)
  have "bySlug_step m a slug = None \<longleftrightarrow> m slug = None \<and> s_slug a \<noteq> Str slug"
    using assms by (cases "s_slug a") (auto simp: bySlug_step_def set_prop_def)
  then show ?case by (auto simp: Cons.IH)
qed

lemma requireSection_absent:
  assumes "slug \<noteq> []" "slug \<noteq> ''__proto__''" "Str slug \<notin> s_slug ` set ss"
  shows "requireSection (bySlug_of ss) slug = Inl (Error (''Missing section: '' @ slug))"
    and "requireSectionId (bySlug_of ss) slug = Inl (Error (''Missing section slug: '' @ slug))"
  using assms bySlug_fold_None [of slug Map.empty ss]
  by (simp_all add: requireSection_def requireSectionId_def bySlug_of_def)

lemma requireSection_present:
  assumes "slug \<noteq> []" "slug \<noteq> ''__proto__''" "Str slug \<in> s_slug ` set ss"
  shows "\<exists>s. requireSection (bySlug_of ss) slug = Inr s"
  using assms bySlug_fold_None [of slug Map.empty ss]
  by (auto simp: requireSection_def bySlug_of_def split: option.splits)

lemma requireSectionId_cases:
  "requireSectionId m slug = Inl (Error (''Missing section slug: '' @ slug))
   \<or> (\<exists>i. requireSectionId m slug = Inr i)"
  by (simp add: requireSectionId_def split: option.splits)

lemma bySlug_fold_Some:
  "foldl bySlug_step m ss slug = Some s \<Longrightarrow> m slug = Some s \<or> s \<in> set ss \<and> s_slug s = Str slug"
proof (induction ss arbitrary: m)
  case Nil
  then show ?case by simp
next
  case (Cons a ss)
  from Cons.prems have "foldl bySlug_step (bySlug_step m a) ss slug = Some s" by simp
  from Cons.IH [OF this] show ?case
    by (cases "s_slug a") (auto simp: bySlug_step_def set_prop_def split: if_splits)
qed

lemma requireSectionId_present:
  assumes "slug \<noteq> []" "slug \<noteq> ''__proto__''" "Str slug \<in> s_slug ` set ss"
    and "\<forall>s\<in>set ss. s_slug s = Str slug \<longrightarrow> s_id s \<noteq> None \<and> s_id s \<noteq> Some 0"
  shows "\<exists>i. requireSectionId (bySlug_of ss) slug = Inr i"
proof -
  from assms(1-3) bySlug_fold_None [of slug Map.empty ss]
  obtain s where s: "bySlug_of ss slug = Some s" by (auto simp: bySlug_of_def)
  with bySlug_fold_Some [of Map.empty ss slug s] have "s \<in> set ss" "s_slug s = Str slug"
    by (auto simp: bySlug_of_def)
  with assms(4) have "s_id s \<noteq> None \<and> s_id s \<noteq> Some 0" by blast
  with s show ?thesis by (auto simp: requireSectionId_def)
qed

lemma and_then_Inl: "and_then r f = Inl e \<longleftrightarrow> r = Inl e \<or> (\<exists>x. r = Inr x \<and> f x = Inl e)"
  by (cases r) (simp_all add: and_then_def)

lemma and_then_simps: "and_then (Inl e) f = Inl e" "and_then (Inr x) f = f x"
  by (simp_all add: and_then_def)

lemma browser_absent:
  assumes sr: "sections_response c = Answer (Some ss)"
    and ab: "\<exists>slug\<in>set [''landing'', ''releases'', ''live'', ''bio'', ''contact'']. Str slug \<notin> s_slug ` set ss"
  shows "\<exists>slug\<in>set [''landing'', ''releases'', ''live'', ''bio'', ''contact''].
           Str slug \<notin> s_slug ` set ss
         \<and> buildDataFromCms c = Inl (Error (''Missing section: '' @ slug))"
proof -
  let ?P = "\<lambda>slug. Str slug \<in> s_slug ` set ss"
  let ?R = "\<lambda>slug. requireSection (bySlug_of ss) slug"
  have A: "\<not> ?P slug \<Longrightarrow> slug \<noteq> [] \<Longrightarrow> slug \<noteq> ''__proto__'' \<Longrightarrow> ?R slug = Inl (Error (''Missing section: '' @ slug))" for slug
    by (rule requireSection_absent)
  have B: "?P slug \<Longrightarrow> slug \<noteq> [] \<Longrightarrow> slug \<noteq> ''__proto__'' \<Longrightarrow> \<exists>s. ?R slug = Inr s" for slug
    by (rule requireSection_present)
  consider (1) "\<not> ?P ''landing''"
    | (2) "?P ''landing''" "\<not> ?P ''releases''"
    | (3) "?P ''landing''" "?P ''releases''" "\<not> ?P ''live''"
    | (4) "?P ''landing''" "?P ''releases''" "?P ''live''" "\<not> ?P ''bio''"
    | (5) "?P ''landing''" "?P ''releases''" "?P ''live''" "?P ''bio''" "\<not> ?P ''contact''"
    using ab by auto
  then show ?thesis
  proof cases
    case 1
    from A [OF 1] have "buildDataFromCms c = Inl (Error (''Missing section: '' @ ''landing''))"
      by (simp add: buildDataFromCms_def sr and_then_simps fetchJson_def)
    with 1 show ?thesis by simp
  next
    case 2
    from B [OF 2(1)] obtain s1 where "?R ''landing'' = Inr s1" by auto
    with A [OF 2(2)] have "buildDataFromCms c = Inl (Error (''Missing section: '' @ ''releases''))"
      by (simp add: buildDataFromCms_def sr and_then_simps fetchJson_def)
    with 2 show ?thesis by simp
  next
    case 3
    from B [OF 3(1)] obtain s1 where "?R ''landing'' = Inr s1" by auto
    moreover from B [OF 3(2)] obtain s2 where "?R ''releases'' = Inr s2" by auto
    ultimately have "buildDataFromCms c = Inl (Error (''Missing section: '' @ ''live''))"
      using A [OF 3(3)] by (simp add: buildDataFromCms_def sr and_then_simps fetchJson_def)
    with 3 show ?thesis by simp
  next
    case 4
    from B [OF 4(1)] obtain s1 where "?R ''landing'' = Inr s1" by auto
    moreover from B [OF 4(2)] obtain s2 where "?R ''releases'' = Inr s2" by auto
    moreover from B [OF 4(3)] obtain s3 where "?R ''live'' = Inr s3" by auto
    ultimately have "buildDataFromCms c = Inl (Error (''Missing section: '' @ ''bio''))"
      using A [OF 4(4)] by (simp add: buildDataFromCms_def sr and_then_simps fetchJson_def)
    with 4 show ?thesis by simp
  next
    case 5
    from B [OF 5(1)] obtain s1 where "?R ''landing'' = Inr s1" by auto
    moreover from B [OF 5(2)] obtain s2 where "?R ''releases'' = Inr s2" by auto
    moreover from B [OF 5(3)] obtain s3 where "?R ''live'' = Inr s3" by auto
    moreover from B [OF 5(4)] obtain s4 where "?R ''bio'' = Inr s4" by auto
    ultimately have "buildDataFromCms c = Inl (Error (''Missing section: '' @ ''contact''))"
      using A [OF 5(5)] by (simp add: buildDataFromCms_def sr and_then_simps fetchJson_def)
    with 5 show ?thesis by simp
  qed
qed

lemma script_absent:
  assumes sr: "sections_response c = Answer (Some ss)"
    and ab: "\<exists>slug\<in>set [''landing'', ''releases'', ''live'', ''bio'', ''contact'']. Str slug \<notin> s_slug ` set ss"
  shows "\<exists>slug\<in>set [''landing'', ''releases'', ''live'', ''bio'', ''contact''].
           buildBootstrap c = Inl (Error (''Missing section slug: '' @ slug))"
proof -
  let ?Q = "\<lambda>slug. requireSectionId (bySlug_of ss) slug"
  let ?E = "\<lambda>slug. Inl (Error (''Missing section slug: '' @ slug)) :: error + int"
  have C: "?Q slug = ?E slug \<or> (\<exists>i. ?Q slug = Inr i)" for slug
    by (rule requireSectionId_cases)
  from ab have D: "?Q ''landing'' = ?E ''landing'' \<or> ?Q ''releases'' = ?E ''releases''
      \<or> ?Q ''live'' = ?E ''live'' \<or> ?Q ''bio'' = ?E ''bio'' \<or> ?Q ''contact'' = ?E ''contact''"
    using requireSection_absent(2) [of _ ss] by fastforce
  show ?thesis
  proof (cases "?Q ''landing''")
    case (Inl e)
    with C [of "''landing''"] show ?thesis by (simp add: buildBootstrap_def sr and_then_simps fetchJson_script_def)
  next
    case l: (Inr i1)
    show ?thesis
    proof (cases "?Q ''releases''")
      case (Inl e)
      with l C [of "''releases''"] show ?thesis by (simp add: buildBootstrap_def sr and_then_simps fetchJson_script_def)
    next
      case r: (Inr i2)
      show ?thesis
      proof (cases "?Q ''live''")
        case (Inl e)
        with l r C [of "''live''"] show ?thesis by (simp add: buildBootstrap_def sr and_then_simps fetchJson_script_def)
      next
        case v: (Inr i3)
        show ?thesis
        proof (cases "?Q ''bio''")
          case (Inl e)
          with l r v C [of "''bio''"] show ?thesis by (simp add: buildBootstrap_def sr and_then_simps fetchJson_script_def)
        next
          case b: (Inr i4)
          with l r v D have "?Q ''contact'' = ?E ''contact''" by simp
          with l r v b show ?thesis by (simp add: buildBootstrap_def sr and_then_simps fetchJson_script_def)
        qed
      qed
    qed
  qed
qed

lemma main_rejected: "buildBootstrap c = Inl e \<Longrightarrow> main c = (1, None)"
  by (simp add: main_def)

lemma and_then_avoids:
  assumes "r \<noteq> Inl e" "\<And>x. f x \<noteq> Inl e"
  shows "and_then r f \<noteq> Inl e"
  using assms by (cases r) (simp_all add: and_then_def)

lemma fetchPosts_not_missing: "fetchPosts c i \<noteq> Inl (Error (''Missing section: '' @ slug))"
  by (simp add: fetchPosts_def fetchJson_def and_then_def
      split: response.splits posts_answer.splits)

lemma fetchPosts_script_not_missing:
  "fetchPosts_script c i \<noteq> Inl (Error (''Missing section slug: '' @ slug))"
  by (simp add: fetchPosts_script_def fetchJson_script_def and_then_def split: response.splits)

lemma each_post_Inl: "each_post ps = Inl e \<Longrightarrow> e = TypeError"
  by (induction ps rule: each_post.induct) (auto split: sum.splits)

lemma each_post_not_Error: "each_post ps \<noteq> Inl (Error m)"
  using each_post_Inl [of ps "Error m"] by auto

lemma mapped_posts_not_Error: "mapped_posts v \<noteq> Inl (Error m)"
  by (cases v) (simp_all add: mapped_posts_def each_post_not_Error)

lemma browser_present:
  assumes sr: "sections_response c = Answer (Some ss)"
    and pr: "\<forall>slug\<in>set [''landing'', ''releases'', ''live'', ''bio'', ''contact'']. Str slug \<in> s_slug ` set ss"
  shows "buildDataFromCms c \<noteq> Inl (Error (''Missing section: '' @ slug))"
proof -
  let ?R = "\<lambda>slug. requireSection (bySlug_of ss) slug"
  have B: "Str slug \<in> s_slug ` set ss \<Longrightarrow> slug \<noteq> [] \<Longrightarrow> slug \<noteq> ''__proto__'' \<Longrightarrow> \<exists>s. ?R slug = Inr s" for slug
    by (rule requireSection_present)
  from pr B [of "''landing''"] obtain s1 where 1: "?R ''landing'' = Inr s1" by auto
  from pr B [of "''releases''"] obtain s2 where 2: "?R ''releases'' = Inr s2" by auto
  from pr B [of "''live''"] obtain s3 where 3: "?R ''live'' = Inr s3" by auto
  from pr B [of "''bio''"] obtain s4 where 4: "?R ''bio'' = Inr s4" by auto
  from pr B [of "''contact''"] obtain s5 where 5: "?R ''contact'' = Inr s5" by auto
  show ?thesis
    unfolding buildDataFromCms_def sr fetchJson_def response.case option.case and_then_simps
      1 2 3 4 5
    by (intro and_then_avoids fetchPosts_not_missing mapped_posts_not_Error) simp
qed

lemma script_present:
  assumes sr: "sections_response c = Answer (Some ss)"
    and pr: "\<forall>slug\<in>set [''landing'', ''releases'', ''live'', ''bio'', ''contact'']. Str slug \<in> s_slug ` set ss"
    and ids: "\<forall>s\<in>set ss. s_slug s \<in> Str ` set [''landing'', ''releases'', ''live'', ''bio'', ''contact'']
                \<longrightarrow> s_id s \<noteq> None \<and> s_id s \<noteq> Some 0"
  shows "buildBootstrap c \<noteq> Inl (Error (''Missing section slug: '' @ slug))"
proof -
  let ?Q = "\<lambda>slug. requireSectionId (bySlug_of ss) slug"
  have B: "\<exists>i. ?Q slug = Inr i"
    if "slug \<in> set [''landing'', ''releases'', ''live'', ''bio'', ''contact'']" for slug
  proof (rule requireSectionId_present)
    show "slug \<noteq> []" "slug \<noteq> ''__proto__''" using that by auto
    show "Str slug \<in> s_slug ` set ss" using that pr by blast
    show "\<forall>s\<in>set ss. s_slug s = Str slug \<longrightarrow> s_id s \<noteq> None \<and> s_id s \<noteq> Some 0"
      using that ids by blast
  qed
  from B [of "''landing''"] obtain s1 where 1: "?Q ''landing'' = Inr s1" by auto
  from B [of "''releases''"] obtain s2 where 2: "?Q ''releases'' = Inr s2" by auto
  from B [of "''live''"] obtain s3 where 3: "?Q ''live'' = Inr s3" by auto
  from B [of "''bio''"] obtain s4 where 4: "?Q ''bio'' = Inr s4" by auto
  from B [of "''contact''"] obtain s5 where 5: "?Q ''contact'' = Inr s5" by auto
  show ?thesis
    unfolding buildBootstrap_def sr fetchJson_script_def response.case and_then_simps Let_def
      or_nil.simps 1 2 3 4 5
    by (intro and_then_avoids fetchPosts_script_not_missing each_post_not_Error) simp
qed

lemma bySlug_of_ex_sections_no_bio:
  "bySlug_of ex_sections_no_bio =
     [''landing'' \<mapsto> \<lparr> s_id = Some 1, s_slug = Str ''landing'' \<rparr>,
      ''releases'' \<mapsto> \<lparr> s_id = Some 2, s_slug = Str ''releases'' \<rparr>,
      ''live'' \<mapsto> \<lparr> s_id = Some 3, s_slug = Str ''live'' \<rparr>,
      ''contact'' \<mapsto> \<lparr> s_id = Some 5, s_slug = Str ''contact'' \<rparr>]"
  by (simp add: bySlug_of_def ex_sections_no_bio_def bySlug_step_def set_prop_def)

lemma bySlug_of_ex_sections_zero_id:
  "bySlug_of ex_sections_zero_id =
     [''landing'' \<mapsto> \<lparr> s_id = Some 0, s_slug = Str ''landing'' \<rparr>,
      ''releases'' \<mapsto> \<lparr> s_id = Some 2, s_slug = Str ''releases'' \<rparr>,
      ''live'' \<mapsto> \<lparr> s_id = Some 3, s_slug = Str ''live'' \<rparr>,
      ''bio'' \<mapsto> \<lparr> s_id = Some 4, s_slug = Str ''bio'' \<rparr>,
      ''contact'' \<mapsto> \<lparr> s_id = Some 5, s_slug = Str ''contact'' \<rparr>]"
  by (simp add: bySlug_of_def ex_sections_zero_id_def bySlug_step_def set_prop_def)

lemma buildDataFromCms_ex_cms_not_array: "buildDataFromCms ex_cms_not_array = Inl TypeError"
  by (simp add: buildDataFromCms_def ex_cms_not_array_def fetchJson_def and_then_simps)

text \<open>
  C9, as amended. For every sections response that is an array: if one of the five
  required slugs (landing, releases, live, bio, contact) is carried by no section, then
  \<^verbatim>\<open>buildDataFromCms\<close> throws \<^verbatim>\<open>Missing section: <slug>\<close> for a required slug that is
  absent, and the build script throws \<^verbatim>\<open>Missing section slug: <slug>\<close> for a required
  slug and exits with status 1. If all five slugs are present, \<^verbatim>\<open>buildDataFromCms\<close>
  throws no \<^verbatim>\<open>Missing section\<close> error, whatever the posts requests answer; the build
  script throws no \<^verbatim>\<open>Missing section slug\<close> error provided that every section
  carrying a required slug has an identifier other than 0 (the script reports a section
  without identifier, or with the identifier 0, as missing).
\<close>

theorem required_sections:
  assumes sr: "sections_response c = Answer (Some ss)"
  shows "((\<exists>slug\<in>set [''landing'', ''releases'', ''live'', ''bio'', ''contact'']. Str slug \<notin> s_slug ` set ss) \<longrightarrow>
            (\<exists>slug\<in>set [''landing'', ''releases'', ''live'', ''bio'', ''contact''].
               Str slug \<notin> s_slug ` set ss
             \<and> buildDataFromCms c = Inl (Error (''Missing section: '' @ slug)))
          \<and> (\<exists>slug\<in>set [''landing'', ''releases'', ''live'', ''bio'', ''contact''].
               buildBootstrap c = Inl (Error (''Missing section slug: '' @ slug)))
          \<and> main c = (1, None))
       \<and> ((\<forall>slug\<in>set [''landing'', ''releases'', ''live'', ''bio'', ''contact'']. Str slug \<in> s_slug ` set ss) \<longrightarrow>
            (\<forall>slug. buildDataFromCms c \<noteq> Inl (Error (''Missing section: '' @ slug)))
          \<and> ((\<forall>s\<in>set ss. s_slug s \<in> Str ` set [''landing'', ''releases'', ''live'', ''bio'', ''contact'']
                  \<longrightarrow> s_id s \<noteq> None \<and> s_id s \<noteq> Some 0) \<longrightarrow>
              (\<forall>slug. buildBootstrap c \<noteq> Inl (Error (''Missing section slug: '' @ slug)))))"
proof (intro conjI impI allI)
  assume ab: "\<exists>slug\<in>set [''landing'', ''releases'', ''live'', ''bio'', ''contact'']. Str slug \<notin> s_slug ` set ss"
  from browser_absent [OF sr ab]
  show "\<exists>slug\<in>set [''landing'', ''releases'', ''live'', ''bio'', ''contact''].
               Str slug \<notin> s_slug ` set ss
             \<and> buildDataFromCms c = Inl (Error (''Missing section: '' @ slug))" .
  from script_absent [OF sr ab]
  show *: "\<exists>slug\<in>set [''landing'', ''releases'', ''live'', ''bio'', ''contact''].
               buildBootstrap c = Inl (Error (''Missing section slug: '' @ slug))" .
  then show "main c = (1, None)" by (auto simp: main_def)
next
  fix slug
  assume "\<forall>slug\<in>set [''landing'', ''releases'', ''live'', ''bio'', ''contact'']. Str slug \<in> s_slug ` set ss"
  then show "buildDataFromCms c \<noteq> Inl (Error (''Missing section: '' @ slug))"
    by (rule browser_present [OF sr])
next
  fix slug
  assume "\<forall>slug\<in>set [''landing'', ''releases'', ''live'', ''bio'', ''contact'']. Str slug \<in> s_slug ` set ss"
    and "\<forall>s\<in>set ss. s_slug s \<in> Str ` set [''landing'', ''releases'', ''live'', ''bio'', ''contact'']
                  \<longrightarrow> s_id s \<noteq> None \<and> s_id s \<noteq> Some 0"
  then show "buildBootstrap c \<noteq> Inl (Error (''Missing section slug: '' @ slug))"
    by (rule script_present [OF sr])
qed

theorem required_sections_witness:
  "buildDataFromCms ex_cms_no_bio = Inl (Error ''Missing section: bio'')
   \<and> buildBootstrap ex_cms_no_bio = Inl (Error ''Missing section slug: bio'')
   \<and> main ex_cms_no_bio = (1, None)
   \<and> \<not> isl (buildDataFromCms ex_cms_ok) \<and> \<not> isl (buildBootstrap ex_cms_ok)
   \<and> fst (main ex_cms_ok) = 0"
  using required_sections [of ex_cms_no_bio ex_sections_no_bio]
        required_sections [of ex_cms_ok ex_sections]
  by (simp add: ex_cms_no_bio_def ex_cms_ok_def buildDataFromCms_def buildBootstrap_def main_def
      Let_def and_then_def bySlug_of_ex_sections bySlug_of_ex_sections_no_bio requireSection_def
      requireSectionId_def fetchPosts_def fetchPosts_script_def fetchJson_def fetchJson_script_def
      mapped_posts_def each_post_map_Some)

text \<open>
  C9 as stated fails. When the five slugs are present and the \<^verbatim>\<open>landing\<close> section has
  the identifier 0, the build script still throws \<^verbatim>\<open>Missing section slug: landing\<close> and
  exits with status 1, while \<^verbatim>\<open>buildDataFromCms\<close> succeeds. And a sections response
  that is not an array carries none of the five slugs, yet \<^verbatim>\<open>buildDataFromCms\<close> throws
  a \<^verbatim>\<open>TypeError\<close>, which names no slug.
\<close>

theorem script_zero_id_counterexample:
  "sections_response ex_cms_zero_id = Answer (Some ex_sections_zero_id)
   \<and> map s_slug ex_sections_zero_id
       = [Str ''landing'', Str ''releases'', Str ''live'', Str ''bio'', Str ''contact'']
   \<and> buildBootstrap ex_cms_zero_id = Inl (Error ''Missing section slug: landing'')
   \<and> main ex_cms_zero_id = (1, None)
   \<and> \<not> isl (buildDataFromCms ex_cms_zero_id)
   \<and> sections_response ex_cms_not_array = Answer None
   \<and> buildDataFromCms ex_cms_not_array = Inl TypeError"
proof -
  have "map s_slug ex_sections_zero_id
       = [Str ''landing'', Str ''releases'', Str ''live'', Str ''bio'', Str ''contact'']"
    by (simp add: ex_sections_zero_id_def)
  moreover have "sections_response ex_cms_not_array = Answer None"
    by (simp add: ex_cms_not_array_def)
  ultimately show ?thesis
    by (simp add: ex_cms_zero_id_def buildDataFromCms_def buildBootstrap_def main_def Let_def
        and_then_def bySlug_of_ex_sections_zero_id requireSection_def
        requireSectionId_def fetchPosts_def fetchJson_def fetchJson_script_def mapped_posts_def
        buildDataFromCms_ex_cms_not_array [unfolded buildDataFromCms_def and_then_def])
qed

section \<open>Video classification: properties\<close>

lemma trim_youtube: "trim ''https://www.youtube.com/watch?v=x'' = ''https://www.youtube.com/watch?v=x''"
  by code_simp

lemma trim_clip: "trim ''/videos/clip.mp4'' = ''/videos/clip.mp4''"
  by code_simp

lemma host_youtube: "is_stream_host (toLowerCase ''https://www.youtube.com/watch?v=x'')"
  by code_simp

lemma host_clip: "\<not> is_stream_host (toLowerCase ''/videos/clip.mp4'')"
  by code_simp

lemma local_clip: "prefix ''/videos/'' (toLowerCase ''/videos/clip.mp4'')"
  by code_simp

lemma trim_spaces:
  assumes "\<forall>c\<in>set s. is_space c"
  shows "trim s = []"
proof -
  have d: "dropWhile is_space s = []"
    using assms by (simp add: dropWhile_eq_Nil_conv)
  show ?thesis unfolding trim_def d by simp
qed

lemma block_examples:
  "block_video t ''https://www.youtube.com/watch?v=x''
     = Some \<lparr> v_type = ''iframe'', v_src = ''https://www.youtube.com/watch?v=x'', v_title = t \<rparr>"
  "block_video t ''/videos/clip.mp4''
     = Some \<lparr> v_type = ''video'', v_src = ''/videos/clip.mp4'', v_title = t \<rparr>"
  "\<forall>c\<in>set s. is_space c \<Longrightarrow> block_video t s = None"
  by (simp_all add: block_video_def trim_youtube trim_clip host_youtube host_clip trim_spaces Let_def)

lemma detail_video: "d_video (live_detail_of p) = block_video (p_title p) (first_content (p_blocks p) ''video'')"
  by (simp add: live_detail_of_def Let_def)

lemma infer_examples:
  assumes "toLowerCase (trim (or_empty (row_video_type r))) = [] \<or> toLowerCase (trim (or_empty (row_video_type r))) = ''none''"
  shows "row_video_src r = Str ''https://www.youtube.com/watch?v=x'' \<Longrightarrow> 
          inferVideo r = Some \<lparr> v_type = ''iframe'', v_src = ''https://www.youtube.com/watch?v=x'',
                                v_title = js_or (row_video_title r) (row_title r) \<rparr>"
   and "row_video_src r = Str ''/videos/clip.mp4'' \<Longrightarrow> 
          inferVideo r = Some \<lparr> v_type = ''video'', v_src = ''/videos/clip.mp4'',
                                v_title = js_or (row_video_title r) (row_title r) \<rparr>"
  using assms
  by (auto simp: inferVideo_def trim_youtube trim_clip host_youtube host_clip local_clip Let_def)

lemma infer_empty: "\<forall>c\<in>set (or_empty (row_video_src r)). is_space c \<Longrightarrow> inferVideo r = None"
  by (simp add: inferVideo_def trim_spaces)

lemma infer_explicit:
  assumes "trim (or_empty (row_video_src r)) \<noteq> []"
    and "toLowerCase (trim (or_empty (row_video_type r))) \<noteq> []"
    and "toLowerCase (trim (or_empty (row_video_type r))) \<noteq> ''none''"
  shows "inferVideo r = Some \<lparr> v_type = toLowerCase (trim (or_empty (row_video_type r))),
                               v_src = trim (or_empty (row_video_src r)),
                               v_title = js_or (row_video_title r) (row_title r) \<rparr>"
  using assms by (simp add: inferVideo_def Let_def)

lemma ex_row_values:
  "trim '' /media/a.bin '' = ''/media/a.bin''" "toLowerCase (trim '' IFrame'') = ''iframe''"
  "toLowerCase (trim ''none'') = ''none''" "toLowerCase (trim []) = []" "trim ''  '' = []"
  by code_simp+

text \<open>
  C8, as amended. In the live-detail block path and in the row path of \<^verbatim>\<open>inferVideo\<close>
  without an explicit type, the source \<^verbatim>\<open>https://www.youtube.com/watch?v=x\<close> yields the
  type \<^verbatim>\<open>iframe\<close>, the source \<^verbatim>\<open>/videos/clip.mp4\<close> yields the type \<^verbatim>\<open>video\<close>. An
  empty or whitespace-only source yields null in both paths, in the row path also when
  an explicit type is given. In the row path, for a source that is not empty after
  trimming, an explicit type that after trimming and lower-casing is neither empty nor
  \<^verbatim>\<open>none\<close> is the type of the result, in that trimmed and lower-cased form.
\<close>

theorem video_classification:
  "block_video t ''https://www.youtube.com/watch?v=x''
     = Some \<lparr> v_type = ''iframe'', v_src = ''https://www.youtube.com/watch?v=x'', v_title = t \<rparr>
   \<and> block_video t ''/videos/clip.mp4''
     = Some \<lparr> v_type = ''video'', v_src = ''/videos/clip.mp4'', v_title = t \<rparr>
   \<and> ((\<forall>c\<in>set s. is_space c) \<longrightarrow> block_video t s = None)
   \<and> d_video (live_detail_of p) = block_video (p_title p) (first_content (p_blocks p) ''video'')
   \<and> (toLowerCase (trim (or_empty (row_video_type r))) = []
        \<or> toLowerCase (trim (or_empty (row_video_type r))) = ''none'' \<longrightarrow>
       (row_video_src r = Str ''https://www.youtube.com/watch?v=x'' \<longrightarrow>
          inferVideo r = Some \<lparr> v_type = ''iframe'', v_src = ''https://www.youtube.com/watch?v=x'',
                                v_title = js_or (row_video_title r) (row_title r) \<rparr>)
     \<and> (row_video_src r = Str ''/videos/clip.mp4'' \<longrightarrow>
          inferVideo r = Some \<lparr> v_type = ''video'', v_src = ''/videos/clip.mp4'',
                                v_title = js_or (row_video_title r) (row_title r) \<rparr>))
   \<and> ((\<forall>c\<in>set (or_empty (row_video_src r)). is_space c) \<longrightarrow> inferVideo r = None)
   \<and> (trim (or_empty (row_video_src r)) \<noteq> []
        \<and> toLowerCase (trim (or_empty (row_video_type r))) \<noteq> []
        \<and> toLowerCase (trim (or_empty (row_video_type r))) \<noteq> ''none'' \<longrightarrow>
       inferVideo r = Some \<lparr> v_type = toLowerCase (trim (or_empty (row_video_type r))),
                             v_src = trim (or_empty (row_video_src r)),
                             v_title = js_or (row_video_title r) (row_title r) \<rparr>)"
proof -
  note b = block_examples [where t = t]
  have 5: "toLowerCase (trim (or_empty (row_video_type r))) = []
        \<or> toLowerCase (trim (or_empty (row_video_type r))) = ''none'' \<longrightarrow>
       (row_video_src r = Str ''https://www.youtube.com/watch?v=x'' \<longrightarrow>
          inferVideo r = Some \<lparr> v_type = ''iframe'', v_src = ''https://www.youtube.com/watch?v=x'',
                                v_title = js_or (row_video_title r) (row_title r) \<rparr>)
     \<and> (row_video_src r = Str ''/videos/clip.mp4'' \<longrightarrow>
          inferVideo r = Some \<lparr> v_type = ''video'', v_src = ''/videos/clip.mp4'',
                                v_title = js_or (row_video_title r) (row_title r) \<rparr>)"
    using infer_examples [of r] by blast
  have 6: "(\<forall>c\<in>set (or_empty (row_video_src r)). is_space c) \<longrightarrow> inferVideo r = None"
    using infer_empty [of r] by blast
  have 7: "trim (or_empty (row_video_src r)) \<noteq> []
        \<and> toLowerCase (trim (or_empty (row_video_type r))) \<noteq> []
        \<and> toLowerCase (trim (or_empty (row_video_type r))) \<noteq> ''none'' \<longrightarrow>
       inferVideo r = Some \<lparr> v_type = toLowerCase (trim (or_empty (row_video_type r))),
                             v_src = trim (or_empty (row_video_src r)),
                             v_title = js_or (row_video_title r) (row_title r) \<rparr>"
    using infer_explicit [of r] by blast
  have 3: "(\<forall>c\<in>set s. is_space c) \<longrightarrow> block_video t s = None"
    using b(3) [of s] by blast
  from b(1) b(2) 3 detail_video [of p] 5 6 7 show ?thesis by (intro conjI)
qed

theorem video_classification_witness:
  "block_video (Str ''Show'') ''  '' = None
   \<and> inferVideo (ex_row ''https://www.youtube.com/watch?v=x'' Undefined)
       = Some \<lparr> v_type = ''iframe'', v_src = ''https://www.youtube.com/watch?v=x'',
                v_title = Str ''Show'' \<rparr>
   \<and> inferVideo (ex_row ''/videos/clip.mp4'' (Str ''none''))
       = Some \<lparr> v_type = ''video'', v_src = ''/videos/clip.mp4'', v_title = Str ''Show'' \<rparr>
   \<and> inferVideo (ex_row ''  '' Undefined) = None
   \<and> inferVideo (ex_row '' /media/a.bin '' (Str '' IFrame''))
       = Some \<lparr> v_type = ''iframe'', v_src = ''/media/a.bin'', v_title = Str ''Show'' \<rparr>"
  using video_classification [where t = "Str ''Show''" and s = "''  ''"
      and r = "ex_row ''https://www.youtube.com/watch?v=x'' Undefined"]
    video_classification [where r = "ex_row ''/videos/clip.mp4'' (Str ''none'')"]
    video_classification [where r = "ex_row ''  '' Undefined"]
    video_classification [where r = "ex_row '' /media/a.bin '' (Str '' IFrame'')"]
  by (simp add: ex_row_def ex_row_values is_space_def js_or_def)

text \<open>
  C8 as stated fails: a row with the explicit type \<^verbatim>\<open>iframe\<close> and an empty source yields
  null, so the explicit type, present and not \<^verbatim>\<open>none\<close>, is not the type of the result.
\<close>

theorem explicit_type_empty_source_counterexample:
  "row_video_type (ex_row [] (Str ''iframe'')) = Str ''iframe''
   \<and> inferVideo (ex_row [] (Str ''iframe'')) = None"
  by (simp add: inferVideo_def trim_def ex_row_def)

section \<open>Slider engine: properties\<close>

lemma run_until_idle:
  "\<not> resume_due t s \<Longrightarrow> \<not> auto_due t s \<Longrightarrow> run_until t s = s \<lparr> now := max (now s) t \<rparr>"
  by (subst run_until.simps) simp

lemma run_until_resume:
  "resume_due t s \<Longrightarrow>
   run_until t s = run_until t (fire_resume (s \<lparr> now := max (now s) (hd (resumeTimers s)) \<rparr>))"
  by (subst run_until.simps) simp

lemma fire_resume_not_paused:
  "\<not> autoPlayPaused s \<Longrightarrow> fire_resume s = s \<lparr> resumeTimers := tl (resumeTimers s) \<rparr>"
  by (simp add: fire_resume_def rerender_def Let_def)

lemma not_paused_run_until: "\<not> autoPlayPaused s \<Longrightarrow> \<not> autoPlayPaused (run_until t s)"
proof (induction t s rule: run_until.induct)
  case (1 t s)
  show ?case
  proof (cases "resume_due t s")
    case True
    with 1 show ?thesis
      by (subst run_until.simps) (simp add: fire_resume_not_paused)
  next
    case False
    show ?thesis
    proof (cases "auto_due t s")
      case True
      with False 1 show ?thesis
        by (subst run_until.simps) (simp add: fire_auto_def scheduleNext_def Let_def)
    next
      case a: False
      with False 1 show ?thesis by (simp add: run_until_idle)
    qed
  qed
qed

lemma index_run_until:
  "\<not> autoPlayPaused s \<Longrightarrow> (case autoTimer s of None \<Rightarrow> True | Some a \<Rightarrow> t < a) \<Longrightarrow>
   index (run_until t s) = index s"
proof (induction t s rule: run_until.induct)
  case (1 t s)
  from 1(4) have na: "\<not> auto_due t s" by (auto simp: auto_due_def split: option.splits)
  show ?case
  proof (cases "resume_due t s")
    case True
    with 1 show ?thesis
      by (subst run_until.simps) (simp add: fire_resume_not_paused)
  next
    case False
    with na show ?thesis by (simp add: run_until_idle)
  qed
qed

lemma two_navigations_state:
  assumes f: "files s \<noteq> []" and np: "\<not> autoPlayPaused s" and rt: "resumeTimers s = []"
    and t1: "now s \<le> t1" "t1 < now s + 3000"
  shows "goPrev (run_until t1 (goNext s)) =
     s \<lparr> index := js_rem (js_rem (index s + 1) (int (length (files s))) - 1 + int (length (files s)))
                     (int (length (files s))),
         lastManualNavigation := t1, autoPlayPaused := True,
         resumeTimers := [now s + 3000, t1 + 3000], autoTimer := None, now := t1 \<rparr>"
proof -
  let ?s1 = "s \<lparr> autoPlayPaused := True, index := js_rem (index s + 1) (int (length (files s))),
                 lastManualNavigation := now s, resumeTimers := [now s + 3000], autoTimer := None \<rparr>"
  have 1: "goNext s = ?s1"
    using f np rt by (simp add: goNext_def rerender_def autoplay_effect_def Let_def)
  have "\<not> resume_due t1 ?s1" "\<not> auto_due t1 ?s1"
    using t1 by (simp_all add: resume_due_def auto_due_def)
  then have 2: "run_until t1 ?s1 = ?s1 \<lparr> now := t1 \<rparr>"
    using t1 by (simp add: run_until_idle max_def)
  show ?thesis
    unfolding 1 2 using f
    by (simp add: goPrev_def rerender_def autoplay_effect_def Let_def)
qed

text \<open>
  C2, as amended. On a slider with images that is not paused and has no pause timer
  pending, \<^verbatim>\<open>next()\<close> is called at the clock of the state and \<^verbatim>\<open>prev()\<close> at \<open>t1\<close>, less
  than 3000 ms later, with no other navigation. Then autoplay stays paused only until
  3000 ms after the first call: the timer of \<^verbatim>\<open>next()\<close> fires then and clears the pause,
  although \<^verbatim>\<open>prev()\<close> was called later. No timer-driven advance occurs before 3000 ms
  plus the interval after the first call; so none occurs within 3000 ms of the last call
  when the interval is at least the time between the two calls.
\<close>

theorem pause_ends_after_first_navigation:
  assumes f: "files s \<noteq> []" and np: "\<not> autoPlayPaused s" and rt: "resumeTimers s = []"
    and t1: "now s \<le> t1" "t1 < now s + 3000"
  shows "(t < now s + 3000 \<longrightarrow>
            autoPlayPaused (run_until t (goPrev (run_until t1 (goNext s)))))
       \<and> (now s + 3000 \<le> t \<longrightarrow>
            \<not> autoPlayPaused (run_until t (goPrev (run_until t1 (goNext s)))))
       \<and> (t < now s + 3000 + int (intervalMs s) \<longrightarrow>
            index (run_until t (goPrev (run_until t1 (goNext s))))
              = index (goPrev (run_until t1 (goNext s))))
       \<and> (t1 - now s \<le> int (intervalMs s) \<and> t < t1 + 3000 \<longrightarrow>
            index (run_until t (goPrev (run_until t1 (goNext s))))
              = index (goPrev (run_until t1 (goNext s))))"
proof -
  let ?i2 = "js_rem (js_rem (index s + 1) (int (length (files s))) - 1 + int (length (files s)))
                     (int (length (files s)))"
  let ?s2 = "s \<lparr> index := ?i2, lastManualNavigation := t1, autoPlayPaused := True,
         resumeTimers := [now s + 3000, t1 + 3000], autoTimer := None, now := t1 \<rparr>"
  have s2: "goPrev (run_until t1 (goNext s)) = ?s2"
    using assms by (rule two_navigations_state)
  have early: "run_until t ?s2 = ?s2 \<lparr> now := max t1 t \<rparr>" if "t < now s + 3000"
    using that by (subst run_until_idle) (simp_all add: resume_due_def auto_due_def)
  let ?s3 = "fire_resume (?s2 \<lparr> now := max (now ?s2) (hd (resumeTimers ?s2)) \<rparr>)"
  have late: "run_until t ?s2 = run_until t ?s3" if "now s + 3000 \<le> t"
    using that by (subst run_until_resume) (simp_all add: resume_due_def)
  have p3: "\<not> autoPlayPaused ?s3" and i3: "index ?s3 = ?i2"
    and a3: "(case autoTimer ?s3 of None \<Rightarrow> True | Some a \<Rightarrow> a = now s + 3000 + int (intervalMs s))"
    using t1 by (simp_all add: fire_resume_def rerender_def autoplay_effect_def scheduleNext_def
        Let_def max_def)
  have a: "autoPlayPaused (run_until t ?s2)" if "t < now s + 3000"
    using early [OF that] by simp
  have b: "\<not> autoPlayPaused (run_until t ?s2)" if "now s + 3000 \<le> t"
    using late [OF that] not_paused_run_until [OF p3] by simp
  have c: "index (run_until t ?s2) = ?i2" if "t < now s + 3000 + int (intervalMs s)"
  proof (cases "t < now s + 3000")
    case True
    from early [OF True] show ?thesis by simp
  next
    case False
    then have l: "now s + 3000 \<le> t" by simp
    have "(case autoTimer ?s3 of None \<Rightarrow> True | Some a \<Rightarrow> t < a)"
      using a3 that by (auto split: option.splits)
    from index_run_until [OF p3 this] late [OF l] i3 show ?thesis by simp
  qed
  have d: "index (run_until t ?s2) = ?i2" if "t1 - now s \<le> int (intervalMs s) \<and> t < t1 + 3000"
    using that by (intro c) simp
  from a b c d show ?thesis unfolding s2 by simp
qed

theorem pause_ends_after_first_navigation_witness:
  "autoPlayPaused (run_until 12500 (ex_two_navigations 1000))
   \<and> \<not> autoPlayPaused (run_until 13000 (ex_two_navigations 1000))
   \<and> index (run_until 13999 (ex_two_navigations 1000)) = index (ex_two_navigations 1000)
   \<and> index (run_until 14999 (ex_two_navigations 6000)) = index (ex_two_navigations 6000)"
  using pause_ends_after_first_navigation
      [of "mounted [''a.jpg'', ''b.jpg'', ''c.jpg''] 1000 10000" 12000 12500]
    pause_ends_after_first_navigation
      [of "mounted [''a.jpg'', ''b.jpg'', ''c.jpg''] 1000 10000" 12000 13000]
    pause_ends_after_first_navigation
      [of "mounted [''a.jpg'', ''b.jpg'', ''c.jpg''] 1000 10000" 12000 13999]
    pause_ends_after_first_navigation
      [of "mounted [''a.jpg'', ''b.jpg'', ''c.jpg''] 6000 10000" 12000 14999]
  by (simp add: ex_two_navigations_def mounted_def autoplay_effect_def scheduleNext_def)

text \<open>
  C2 as stated fails: \<^verbatim>\<open>next()\<close> at clock 10000 and \<^verbatim>\<open>prev()\<close> at clock 12000. At
  clock 14500, less than 3000 ms after the last call, autoplay is no longer paused; with
  an interval of 1000 ms the autoplay timer has already advanced the index.
\<close>

theorem pause_until_last_navigation_counterexample:
  "lastManualNavigation (ex_two_navigations 1000) = 12000
   \<and> autoPlayPaused (ex_two_navigations 1000)
   \<and> index (ex_two_navigations 1000) = 0
   \<and> \<not> autoPlayPaused (run_until 14500 (ex_two_navigations 1000))
   \<and> index (run_until 14500 (ex_two_navigations 1000)) = 1
   \<and> lastManualNavigation (ex_two_navigations 6000) = 12000
   \<and> \<not> autoPlayPaused (run_until 14500 (ex_two_navigations 6000))"
  by code_simp

section \<open>Scramble animation: properties\<close>

lemma upt_0_2: "[0..<2] = [0, 1]"
  by code_simp

lemma update_not_animating: "\<not> isAnimating s \<Longrightarrow> \<not> isAnimating (update s d)"
  by (simp add: update_def requestAnimationFrame_def Let_def del: enumerate_simps)

text \<open>No method sets the flag: from the constructor on, \<^verbatim>\<open>isAnimating\<close> is false, so
  the test at the head of \<^verbatim>\<open>setText\<close> never succeeds.\<close>

lemma never_animating:
  "\<not> isAnimating (TextScramble e)"
  "\<not> isAnimating s \<Longrightarrow> \<not> isAnimating (setText s t d)"
  "\<not> isAnimating s \<Longrightarrow> \<not> isAnimating (animation_frame s d)"
proof -
  show "\<not> isAnimating (TextScramble e)" by (simp add: TextScramble_def)
  have c: "isAnimating (cancelAnimationFrame x) = isAnimating x" for x
    by (simp add: cancelAnimationFrame_def split: option.splits)
  show "\<not> isAnimating (setText s t d)" if "\<not> isAnimating s"
    unfolding setText_def Let_def using that by (simp add: update_not_animating c)
  show "\<not> isAnimating (animation_frame s d)" if "\<not> isAnimating s"
    unfolding animation_frame_def using that
    by (cases "pending s") (simp_all add: update_not_animating)
qed

text \<open>
  On the object alone, a second \<^verbatim>\<open>setText\<close> during an animation would restart it: it
  cancels the pending frame, replaces the queue and resets the frame counter. The hook,
  the only caller of \<^verbatim>\<open>setText\<close> and the only export of the module, makes no such
  call, as shown below.
\<close>

lemma setText_twice_on_object:
  "\<not> isAnimating ex_in_flight
   \<and> pending ex_in_flight = [2]
   \<and> frame ex_in_flight = 3
   \<and> frame (setText ex_in_flight [99, 100] (ex_draws 4 1)) = 1
   \<and> pending (setText ex_in_flight [99, 100] (ex_draws 4 1)) = [3]
   \<and> queue (setText ex_in_flight [99, 100] (ex_draws 4 1)) =
       [\<lparr> q_from = [0x2591], q_to = [99], q_start = 4, q_end = 5, q_char = None \<rparr>,
        \<lparr> q_from = [0x2592], q_to = [100], q_start = 4, q_end = 5, q_char = None \<rparr>]"
  by (simp add: ex_in_flight_def ex_draws_def setText_def animation_frame_def update_def
      update_item_def TextScramble_def innerText_def cell_text_def char_at_def randomChar_def
      chars_def requestAnimationFrame_def cancelAnimationFrame_def Let_def upt_0_2)

text \<open>A call of \<^verbatim>\<open>update\<close> requests at most one animation frame.\<close>

lemma pending_update: "length (pending (update s d)) \<le> Suc (length (pending s))"
  by (simp add: update_def requestAnimationFrame_def Let_def del: enumerate_simps)

lemma pending_setText:
  assumes "pending s = []"
  shows "length (pending (setText s t d)) \<le> 1"
proof (cases "isAnimating s")
  case True
  with assms show ?thesis by (simp add: setText_def)
next
  case False
  have c: "pending (cancelAnimationFrame x) = []" if "pending x = []" for x
    using that by (simp add: cancelAnimationFrame_def split: option.splits)
  have "length (pending (update x d)) \<le> 1" if "pending x = []" for x
    using pending_update [of x d] that by simp
  with False assms show ?thesis
    unfolding setText_def Let_def by (simp add: c)
qed

lemma pending_animation_frame:
  "length (pending (animation_frame s d)) \<le> length (pending s)"
proof (cases "pending s")
  case Nil
  then show ?thesis by (simp add: animation_frame_def)
next
  case (Cons k ks)
  with pending_update [of "s \<lparr> pending := ks \<rparr>" d] show ?thesis
    by (simp add: animation_frame_def)
qed

lemma sum_list_map_update:
  fixes f :: "'a \<Rightarrow> nat"
  assumes "i < length xs" "f y \<le> f (xs ! i)"
  shows "sum_list (map f (xs[i := y])) \<le> sum_list (map f xs)"
proof -
  have "sum_list (map f (xs[i := y])) = sum_list ((map f xs)[i := f y])"
    by (simp add: map_update)
  also have "\<dots> = sum_list (map f xs) + f y - (map f xs) ! i"
    using assms(1) by (simp add: sum_list_update)
  also have "\<dots> \<le> sum_list (map f xs)"
    using assms by simp
  finally show ?thesis .
qed

lemma frames_pending_frame:
  "frames_pending (on_scrambler (\<lambda>s. animation_frame s d) i h) \<le> frames_pending h"
proof (cases "i < length (scramblers h)")
  case False
  then show ?thesis by (simp add: on_scrambler_def)
next
  case True
  let ?s = "animation_frame ((scramblers h ! i) \<lparr> el := element h \<rparr>) d"
  have "length (pending ?s) \<le> length (pending (scramblers h ! i))"
    using pending_animation_frame [of "(scramblers h ! i) \<lparr> el := element h \<rparr>" d] by simp
  with True show ?thesis
    unfolding frames_pending_def on_scrambler_def Let_def
    by (simp add: sum_list_map_update)
qed

lemma frames_pending_setText:
  assumes "frames_pending h = 0"
  shows "frames_pending (on_scrambler (\<lambda>s. setText s t d) 0 h) \<le> 1"
proof (cases "scramblers h")
  case Nil
  with assms show ?thesis by (simp add: on_scrambler_def)
next
  case (Cons s ss)
  with assms have p: "pending s = []" and r: "sum_list (map (\<lambda>s. length (pending s)) ss) = 0"
    by (simp_all add: frames_pending_def)
  from p have "length (pending (setText (s \<lparr> el := element h \<rparr>) t d)) \<le> 1"
    by (intro pending_setText) simp
  with Cons show ?thesis
    by (simp add: frames_pending_def on_scrambler_def Let_def r)
qed

lemma on_scrambler_fields:
  "timeouts (on_scrambler f i h) = timeouts h"
  "isVisibleRef (on_scrambler f i h) = isVisibleRef h"
  by (simp_all add: on_scrambler_def Let_def)

lemma frames_pending_timeouts: "frames_pending (h \<lparr> timeouts := ts \<rparr>) = frames_pending h"
  by (simp add: frames_pending_def)

text \<open>
  What every event preserves: at most one animation frame or start timeout is pending
  for the element, and none before the element was first seen.
\<close>

lemma step_invariant:
  assumes "frames_pending h + length (timeouts h) \<le> 1"
    and "\<not> isVisibleRef h \<longrightarrow> frames_pending h = 0 \<and> timeouts h = []"
  shows "frames_pending (step ev h) + length (timeouts (step ev h)) \<le> 1
         \<and> (\<not> isVisibleRef (step ev h) \<longrightarrow> frames_pending (step ev h) = 0 \<and> timeouts (step ev h) = [])"
proof (cases ev)
  case Effect
  with assms show ?thesis
    by (simp add: effect_def frames_pending_def TextScramble_def)
next
  case Cleanup
  with assms show ?thesis
    by (cases "scramblers h") (simp_all add: cleanup_def frames_pending_def)
next
  case Unmount
  with assms show ?thesis by (simp add: frames_pending_def)
next
  case (Intersect t)
  with assms show ?thesis
    by (simp add: observerCallback_def startAnimation_def frames_pending_def)
next
  case (Timeout d)
  show ?thesis
  proof (cases "timeouts h")
    case Nil
    with Timeout assms show ?thesis by (simp add: timeout_fires_def)
  next
    case (Cons t ts)
    with assms have v: "isVisibleRef h" and z: "frames_pending h = 0" and ts: "ts = []"
      by auto
    let ?h1 = "h \<lparr> timeouts := ts \<rparr>"
    have "frames_pending ?h1 = 0" using z by (simp add: frames_pending_timeouts)
    from frames_pending_setText [OF this]
    have "frames_pending (on_scrambler (\<lambda>s. setText s t d) 0 ?h1) \<le> 1" .
    with Timeout Cons v z ts show ?thesis
      by (simp add: timeout_fires_def Let_def on_scrambler_fields frames_pending_timeouts)
  qed
next
  case (Frame i d)
  with assms frames_pending_frame [of d i h] show ?thesis
    by (auto simp: on_scrambler_fields)
qed

lemma run_snoc: "run (es @ [ev]) h = step ev (run es h)"
  by (simp add: run_def)

lemma run_invariant:
  "frames_pending (run es (useScramble e)) + length (timeouts (run es (useScramble e))) \<le> 1
   \<and> (\<not> isVisibleRef (run es (useScramble e)) \<longrightarrow>
        frames_pending (run es (useScramble e)) = 0 \<and> timeouts (run es (useScramble e)) = [])"
proof (induction es rule: rev_induct)
  case Nil
  show ?case by (simp add: run_def useScramble_def frames_pending_def)
next
  case (snoc ev es)
  then show ?case unfolding run_snoc by (intro step_invariant) simp_all
qed

lemma ex_hook_value:
  "ex_hook =
     \<lparr> element = [Glitching 0x2591, Glitching 0x2592], elRef = True,
       scramblers =
         [\<lparr> el = [Glitching 0x2591, Glitching 0x2592],
            queue =
              [\<lparr> q_from = [97], q_to = [97], q_start = 2, q_end = 7, q_char = Some 0x2591 \<rparr>,
               \<lparr> q_from = [98], q_to = [98], q_start = 2, q_end = 7, q_char = Some 0x2592 \<rparr>],
            frame = 3, frameRequest = Some 2, pending = [2], next_id = 3,
            isAnimating = False, resolves = 0 \<rparr>],
       isVisibleRef = True, timeouts = [] \<rparr>"
  by (simp add: ex_hook_def run_def useScramble_def effect_def observerCallback_def
      startAnimation_def timeout_fires_def on_scrambler_def ex_draws_def setText_def
      animation_frame_def update_def update_item_def TextScramble_def innerText_def cell_text_def
      char_at_def randomChar_def chars_def requestAnimationFrame_def cancelAnimationFrame_def
      Let_def upt_0_2)

text \<open>
  C5. The animation of an element is requested by \<^verbatim>\<open>startAnimation\<close>, which the
  observer calls and which calls \<^verbatim>\<open>setText\<close> from its timeout. In every state that the
  hook of an element reaches, by any sequence of effect runs, cleanups, unmounting,
  intersections, timeouts and animation frames: at most one animation is in flight, that
  is, at most one animation frame or start timeout is pending for the element; while one
  is pending, a new request, by the observer or by \<^verbatim>\<open>startAnimation\<close> itself, is
  ignored, leaving the whole state, and so the queue and the frame counter of the
  animation in flight, untouched; and when the timeout is about to call \<^verbatim>\<open>setText\<close>,
  no animation frame is pending, so that \<^verbatim>\<open>setText\<close> is never called during an
  animation. The request that comes before the element was seen is accepted: it sets the
  text and starts the timeout. What ignores the later requests is \<^verbatim>\<open>isVisibleRef\<close>,
  which \<^verbatim>\<open>startAnimation\<close> sets and nothing resets, not the \<^verbatim>\<open>isAnimating\<close> test
  of \<^verbatim>\<open>setText\<close>.
\<close>

theorem one_animation_per_element:
  assumes "h = run es (useScramble e)"
  shows "frames_pending h + length (timeouts h) \<le> 1
       \<and> (0 < frames_pending h \<or> timeouts h \<noteq> [] \<longrightarrow>
            isVisibleRef h \<and> step (Intersect t) h = h \<and> startAnimation t h = h)
       \<and> (timeouts h \<noteq> [] \<longrightarrow> frames_pending h = 0)
       \<and> (\<not> isVisibleRef h \<and> scramblers h \<noteq> [] \<longrightarrow>
            step (Intersect t) h
              = h \<lparr> isVisibleRef := True,
                    element := (if elRef h then [Plain t] else element h),
                    timeouts := [t] \<rparr>)"
proof -
  from run_invariant [of es e] assms
  have 1: "frames_pending h + length (timeouts h) \<le> 1"
    and 2: "\<not> isVisibleRef h \<longrightarrow> frames_pending h = 0 \<and> timeouts h = []"
    by simp_all
  from 2 have 3: "0 < frames_pending h \<or> timeouts h \<noteq> [] \<longrightarrow>
      isVisibleRef h \<and> step (Intersect t) h = h \<and> startAnimation t h = h"
    by (auto simp: observerCallback_def startAnimation_def)
  from 1 have 4: "timeouts h \<noteq> [] \<longrightarrow> frames_pending h = 0"
    by (cases "timeouts h") simp_all
  from 2 have 5: "\<not> isVisibleRef h \<and> scramblers h \<noteq> [] \<longrightarrow>
            step (Intersect t) h
              = h \<lparr> isVisibleRef := True,
                    element := (if elRef h then [Plain t] else element h),
                    timeouts := [t] \<rparr>"
    by (simp add: observerCallback_def startAnimation_def)
  from 1 3 4 5 show ?thesis by blast
qed

theorem one_animation_per_element_witness:
  "frames_pending ex_hook = 1
   \<and> timeouts ex_hook = []
   \<and> map frame (scramblers ex_hook) = [3]
   \<and> map queue (scramblers ex_hook) =
       [[\<lparr> q_from = [97], q_to = [97], q_start = 2, q_end = 7, q_char = Some 0x2591 \<rparr>,
         \<lparr> q_from = [98], q_to = [98], q_start = 2, q_end = 7, q_char = Some 0x2592 \<rparr>]]
   \<and> step (Intersect [99, 100]) ex_hook = ex_hook
   \<and> startAnimation [99, 100] ex_hook = ex_hook
   \<and> timeouts (step (Intersect [97, 98]) (run [Effect] (useScramble [Plain [97, 98]]))) = [[97, 98]]"
  using one_animation_per_element [OF ex_hook_def, where t = "[99, 100]"]
    one_animation_per_element
      [OF refl, where es = "[Effect]" and e = "[Plain [97, 98]]" and t = "[97, 98]"]
  by (simp add: ex_hook_value frames_pending_def run_def useScramble_def effect_def
      TextScramble_def observerCallback_def startAnimation_def)

end
